theory Spec2Isabelle
  imports Complex_Main
begin

section \<open>The Postgres stream store of streamsource\<close>

text \<open>
  A shallow embedding of \<^verbatim>\<open>src/postgres/pg-stream-store.ts\<close>. The file under
  \<^verbatim>\<open>src/\<close> holds two revisions of that module, one after the other;
  the model follows the later one (lines 646 to 1501), the one with
  \<^verbatim>\<open>deleteStream\<close>, \<^verbatim>\<open>deleteMessage\<close> and
  \<^verbatim>\<open>handlePotentialConcurrencyError\<close>. Where the earlier revision is
  mentioned, the name ends in \<open>_rev1\<close>.

  Every operation is a function of the store's state and returns the result together
  with the new state. The state carries a trace of what the operation did to the
  outside world (latch operations and storage queries), so that "before any I/O" is a
  statement about the trace. A rejected promise is the left injection of a sum.
\<close>

subsection \<open>JavaScript values and strings\<close>

text \<open>
  Values whose presence the code checks at run time are JavaScript values. Numbers are
  integers here: versions and counts are integral, and positions, which may exceed
  \<open>2^53\<close>, are decimal strings in the source as well.
\<close>

datatype jsval =
    Undefined
  | Null
  | Bool bool
  | Num int
  | Str string
  | Arr "jsval list"
  | Obj "(string \<times> jsval) list"

text \<open>\<^verbatim>\<open>String.prototype.endsWith\<close> and \<^verbatim>\<open>startsWith\<close>.\<close>

definition endsWith :: "string \<Rightarrow> string \<Rightarrow> bool" where
  "endsWith s suffix =
     (length suffix \<le> length s \<and> drop (length s - length suffix) s = suffix)"

definition startsWith :: "string \<Rightarrow> string \<Rightarrow> bool" where
  "startsWith s prefix = (take (length prefix) s = prefix)"

subsection \<open>Errors (\<^verbatim>\<open>src/errors/errors.ts\<close>)\<close>

text \<open>
  \<open>StorageError message detail\<close> is any error the storage driver rejects with: the
  code reads its \<^verbatim>\<open>message\<close> and its \<^verbatim>\<open>detail\<close>, which
  may be missing. A \<open>ConcurrencyError\<close> is always built with its default message
  here; \<open>DisposedError\<close> and \<open>InvalidParameterError\<close> carry the message they
  were built with. \<open>TypeError\<close> is what reading a property of \<^verbatim>\<open>null\<close>
  throws, \<open>JsError\<close> a plain \<^verbatim>\<open>Error\<close>.
\<close>

datatype error =
    StorageError string "string option"
  | ConcurrencyError
  | DuplicateMessageError string
  | DisposedError string
  | InvalidParameterError string
  | TypeError string
  | JsError string

fun message :: "error \<Rightarrow> string" where
  "message (StorageError m d) = m"
| "message ConcurrencyError =
     ''The expected version did not match that of the event store.''"
| "message (DuplicateMessageError i) =
     ''Cannot insert message with duplicate ID \"'' @ i @ ''\"''"
| "message (DisposedError m) = m"
| "message (InvalidParameterError m) = m"
| "message (TypeError m) = m"
| "message (JsError m) = m"

fun detail :: "error \<Rightarrow> string option" where
  "detail (StorageError m d) = d"
| "detail e = None"

subsection \<open>Metadata stream ids\<close>

text \<open>\<^verbatim>\<open>toMetadataStreamId\<close>, lines 1492 to 1494: the template
  \<^verbatim>\<open>`$$${streamId}`\<close>.\<close>

definition toMetadataStreamId :: "string \<Rightarrow> string" where
  "toMetadataStreamId streamId = ''$$'' @ streamId"

text \<open>The earlier revision, lines 643 to 645: \<^verbatim>\<open>`$$ meta-${streamId} $$`\<close>.\<close>

definition toMetadataStreamId_rev1 :: "string \<Rightarrow> string" where
  "toMetadataStreamId_rev1 streamId = ''$$ meta-'' @ streamId @ '' $$''"

text \<open>\<^verbatim>\<open>isMetaStream\<close>, lines 1499 to 1501.\<close>

definition isMetaStream :: "string \<Rightarrow> bool" where
  "isMetaStream streamId = startsWith streamId ''$''"

subsection \<open>Decimal strings and big integers\<close>

text \<open>
  \<^verbatim>\<open>Number.prototype.toString\<close> on an integer, and the two operations of the
  external library \<^verbatim>\<open>big-integer\<close> that the store uses on positions, which
  the spec calls decimal strings with big-integer arithmetic: reading a decimal string
  (an optional minus sign and at least one digit; any other string throws) and printing
  an integer.
\<close>

fun toString_nat :: "nat \<Rightarrow> string" where
  "toString_nat n =
     (if n < 10 then [''0123456789'' ! n]
      else toString_nat (n div 10) @ [''0123456789'' ! (n mod 10)])"

declare toString_nat.simps [simp del]

definition toString_int :: "int \<Rightarrow> string" where
  "toString_int i =
     (if i < 0 then CHR ''-'' # toString_nat (nat (- i)) else toString_nat (nat i))"

definition digit_value :: "char \<Rightarrow> nat option" where
  "digit_value c =
     (let n = (of_char c :: nat) in if 48 \<le> n \<and> n \<le> 57 then Some (n - 48) else None)"

fun parse_digits :: "nat \<Rightarrow> string \<Rightarrow> nat option" where
  "parse_digits acc [] = Some acc"
| "parse_digits acc (c # cs) =
     (case digit_value c of
        None \<Rightarrow> None
      | Some d \<Rightarrow> parse_digits (10 * acc + d) cs)"

definition BigInteger :: "string \<Rightarrow> int option" where
  "BigInteger v =
     (case v of
        [] \<Rightarrow> None
      | c # cs \<Rightarrow>
          if c = CHR ''-''
          then (if cs = [] then None
                else map_option (\<lambda>n. - int n) (parse_digits 0 cs))
          else map_option int (parse_digits 0 v))"

text \<open>Line 706: \<^verbatim>\<open>BigInteger('9223372036854775807').toString()\<close>.\<close>

definition MAX_BIG_VALUE :: string where
  "MAX_BIG_VALUE = ''9223372036854775807''"

text \<open>\<^verbatim>\<open>Number.MAX_SAFE_INTEGER\<close>, that is \<open>2^53 - 1\<close>.\<close>

definition MAX_SAFE_INTEGER :: int where
  "MAX_SAFE_INTEGER = 9007199254740991"

subsection \<open>Objects\<close>

text \<open>
  An object is the list of its own properties; reading a property that is not there
  gives \<^verbatim>\<open>undefined\<close>. A new message is such an object (the tests pass
  \<^verbatim>\<open>{}\<close> for one). \<open>jsprop\<close> reads a property of a value that is
  neither \<^verbatim>\<open>null\<close> nor \<^verbatim>\<open>undefined\<close>.
\<close>

type_synonym js_object = "(string \<times> jsval) list"

type_synonym NewStreamMessage = js_object

definition get :: "js_object \<Rightarrow> string \<Rightarrow> jsval" where
  "get obj k = (case map_of obj k of None \<Rightarrow> Undefined | Some v \<Rightarrow> v)"

fun jsprop :: "jsval \<Rightarrow> string \<Rightarrow> jsval" where
  "jsprop (Obj obj) k = get obj k"
| "jsprop v k = Undefined"

text \<open>The operand test of \<^verbatim>\<open>x || y\<close>.\<close>

fun falsy :: "jsval \<Rightarrow> bool" where
  "falsy Undefined = True"
| "falsy Null = True"
| "falsy (Bool b) = (\<not> b)"
| "falsy (Num n) = (n = 0)"
| "falsy (Str s) = (s = [])"
| "falsy v = False"

subsection \<open>Sentinels\<close>

text \<open>
  Modelled from the spec: the enum \<^verbatim>\<open>ExpectedVersion\<close> of
  \<^verbatim>\<open>src/types/stream-store.ts\<close>, which is not among the sources. The spec
  gives \<^verbatim>\<open>ExpectedVersion.Any = -2\<close> and \<^verbatim>\<open>ExpectedVersion.Empty = -1\<close>.
\<close>

definition ExpectedVersion_Any :: int where
  "ExpectedVersion_Any = - 2"

definition ExpectedVersion_Empty :: int where
  "ExpectedVersion_Empty = - 1"

text \<open>
  The enum \<^verbatim>\<open>Position\<close> of \<^verbatim>\<open>src/types/messages.ts\<close> is not among
  the sources either, and the spec does not give the value of
  \<^verbatim>\<open>Position.End\<close>. The code compares it with a version by
  \<^verbatim>\<open>===\<close> and calls \<^verbatim>\<open>toString()\<close> on it, so it is a number
  here, and every operation that mentions it takes its value as the parameter
  \<open>Position_End\<close>.
\<close>

text \<open>\<^verbatim>\<open>AppendResultCodes.ConcurrencyIssue\<close>, lines 1484 to 1486.\<close>

definition ConcurrencyIssue :: int where
  "ConcurrencyIssue = - 9"

subsection \<open>Invariants\<close>

text \<open>
  Modelled from the spec: the checks of \<^verbatim>\<open>src/utils/invariant.ts\<close>, which is
  not among the sources. A check returns the error it throws, or \<open>None\<close>. The spec
  says that a check fails with \<^verbatim>\<open>InvalidParameter\<close>, with a message of the
  form \<^verbatim>\<open><field> is required\<close> or \<^verbatim>\<open><field> must be a UUID\<close>, and
  what append demands: the stream id non-empty and not beginning with
  \<^verbatim>\<open>$\<close>, the expected version present, and for each message a UUID
  \<^verbatim>\<open>messageId\<close>, a non-empty \<^verbatim>\<open>type\<close> and non-null
  \<^verbatim>\<open>data\<close>. The source checks the last two and the expected version with
  the one function \<^verbatim>\<open>required\<close>, so \<open>required\<close> refuses
  \<^verbatim>\<open>undefined\<close>, \<^verbatim>\<open>null\<close> and the empty string. The spec
  gives no message for an operational stream id; the text chosen below stands for it.
\<close>

definition required :: "string \<Rightarrow> jsval \<Rightarrow> error option" where
  "required name v =
     (if v = Undefined \<or> v = Null \<or> v = Str []
      then Some (InvalidParameterError (name @ '' is required''))
      else None)"

definition requiredString :: "string \<Rightarrow> string \<Rightarrow> error option" where
  "requiredString name v =
     (if v = [] then Some (InvalidParameterError (name @ '' is required'')) else None)"

definition notOperationalStream :: "string \<Rightarrow> string \<Rightarrow> error option" where
  "notOperationalStream name v =
     (if startsWith v ''$''
      then Some (InvalidParameterError (name @ '' must not be an operational stream''))
      else None)"

definition is_hex :: "char \<Rightarrow> bool" where
  "is_hex c = (c \<in> set ''0123456789abcdefABCDEF'')"

text \<open>
  The textual form of a UUID: groups of 8, 4, 4, 4 and 12 hexadecimal digits, with a
  hyphen between them.
\<close>

definition is_uuid :: "string \<Rightarrow> bool" where
  "is_uuid s =
     list_all2 (\<lambda>p c. if p = CHR ''-'' then c = CHR ''-'' else is_hex c)
       ''xxxxxxxx-xxxx-xxxx-xxxx-xxxxxxxxxxxx'' s"

definition uuid :: "string \<Rightarrow> jsval \<Rightarrow> error option" where
  "uuid name v =
     (case v of
        Str s \<Rightarrow>
          if is_uuid s then None
          else Some (InvalidParameterError (name @ '' must be a UUID''))
      | _ \<Rightarrow> Some (InvalidParameterError (name @ '' must be a UUID'')))"

text \<open>\<^verbatim>\<open>InvalidParameterError.assert(condition, message)\<close>.\<close>

definition assert :: "bool \<Rightarrow> string \<Rightarrow> error option" where
  "assert condition msg = (if condition then None else Some (InvalidParameterError msg))"

text \<open>Statements that may throw, one after the other: the first error wins.\<close>

fun first_error :: "error option list \<Rightarrow> error option" where
  "first_error [] = None"
| "first_error (None # cs) = first_error cs"
| "first_error (Some e # cs) = Some e"

subsection \<open>Rows, messages and results\<close>

text \<open>
  The rows the storage driver returns, with the columns the code reads. Where two
  records have a field of the same name, the earlier one is written with its record's
  name in front.
\<close>

record message_row =
  stream_id :: string
  message_id :: string
  data :: jsval
  meta :: jsval
  created_at :: jsval
  type :: string
  position :: string
  stream_version :: int

record info_row =
  id :: string
  stream_version :: int
  position :: string
  max_age :: jsval
  max_count :: jsval
  stream_type :: jsval

text \<open>\<^verbatim>\<open>InsertResult\<close>, lines 1474 to 1479.\<close>

record InsertResult =
  current_version :: int
  current_position :: string
  max_count :: jsval
  max_age :: jsval

record StreamMessage =
  streamId :: string
  messageId :: string
  data :: jsval
  meta :: jsval
  createdAt :: jsval
  type :: string
  position :: string
  streamVersion :: int

record ReadStreamResult =
  nextVersion :: int
  streamId :: string
  streamPosition :: string
  streamVersion :: int
  maxAge :: jsval
  maxCount :: jsval
  streamType :: jsval
  isEnd :: bool
  messages :: "StreamMessage list"

record ReadAllResult =
  isEnd :: bool
  messages :: "StreamMessage list"
  nextPosition :: string

record AppendToStreamResult =
  streamPosition :: string
  streamVersion :: int

record StreamMetadataResult =
  streamId :: string
  metadata :: jsval
  metadataStreamVersion :: int
  maxAge :: jsval
  maxCount :: jsval

datatype ReadDirection = Forward | Backward

text \<open>
  A position given to \<^verbatim>\<open>readAll\<close> is a \<^verbatim>\<open>MessagePosition\<close> (a
  decimal string) or a member of the enum \<^verbatim>\<open>Position\<close> (a number).
\<close>

datatype position_arg = PosString string | PosNumber int

fun toString :: "position_arg \<Rightarrow> string" where
  "toString (PosString s) = s"
| "toString (PosNumber n) = toString_int n"

fun js_of_position :: "position_arg \<Rightarrow> jsval" where
  "js_of_position (PosString s) = Str s"
| "js_of_position (PosNumber n) = Num n"

subsection \<open>The store's state and its trace\<close>

text \<open>
  The scripts of \<^verbatim>\<open>src/postgres/scripts.ts\<close> build SQL text; a query is
  the script's name with the arguments it was built from. \<open>Batch q1 q2\<close> is the
  text \<^verbatim>\<open>q1 + '; ' + q2\<close>.
\<close>

datatype query =
    Q_append string string jsval "string option" "NewStreamMessage list"
  | Q_readHeadPosition
  | Q_readStreamInfo string
  | Q_readStreamMessages string int int bool
  | Batch query query
  | Q_readAllMessages int string bool
  | Q_setStreamMetadata string string jsval jsval jsval "string option" NewStreamMessage
  | Q_deleteStream string string jsval "string option" NewStreamMessage
  | Q_deleteMessages string "string list"

text \<open>
  A notifier and a subscription are objects: each carries the number it was created
  under, which is its identity.
\<close>

datatype notifier =
    PollingNotifier nat int
  | PostgresNotifier nat "int option"

datatype subscription =
    StreamSubscription nat string notifier
  | AllSubscription nat notifier

fun notifier_of :: "subscription \<Rightarrow> notifier" where
  "notifier_of (StreamSubscription i sid n) = n"
| "notifier_of (AllSubscription i n) = n"

datatype event =
    LatchEnter
  | LatchExit
  | LatchWait
  | Query query
  | CreateNotifier notifier
  | CreateSubscription subscription
  | DisposeSubscription subscription
  | DisposeNotifier notifier
  | PoolEnd

text \<open>The options of a retry, and the ones the store retries with (lines 735 to 740).\<close>

record RetryOptions =
  factor :: real
  tries :: nat
  minTimeout :: nat
  maxTimeout :: nat

definition retryOpts :: RetryOptions where
  "retryOpts = \<lparr>factor = 1.05, tries = 200, minTimeout = 0, maxTimeout = 50\<rparr>"

text \<open>
  The variables that \<^verbatim>\<open>createPostgresStreamStore\<close> closes over (lines 727 to
  733), the trace of what the store has done so far, and the waits that retrying has
  made so far: each with the options it was made under and the number of the attempt
  it came before. The write latch of \<^verbatim>\<open>src/utils/latch.ts\<close> appears
  through the calls made on it only.
\<close>

record store =
  subscriptions :: "subscription list"
  notifier :: "notifier option"
  disposing :: bool
  trace :: "event list"
  backoffs :: "(RetryOptions \<times> nat) list"

definition emit :: "event \<Rightarrow> store \<Rightarrow> store" where
  "emit e s = s\<lparr>trace := trace s @ [e]\<rparr>"

text \<open>
  The storage driver is outside the program: a pool answers a query with an error or
  with the rows the caller reads, and the answer may depend on when the query is made
  (the length of the trace at that moment).
\<close>

type_synonym 'r pool = "nat \<Rightarrow> query \<Rightarrow> error + 'r"

text \<open>The configuration, as far as the store reads it (lines 715 to 725).\<close>

text \<open>
  \<open>Poll pollingInterval\<close> is \<^verbatim>\<open>{type: 'poll', pollingInterval}\<close> and
  \<open>PgNotify keepAliveInterval\<close> is \<^verbatim>\<open>{type: 'pg-notify', keepAliveInterval}\<close>;
  an interval that is not given is \<open>None\<close>.
\<close>

datatype NotifierConfig =
    Poll "int option"
  | PgNotify "int option"

record PgStreamStoreConfig =
  gapReloadDelay :: "int option"
  gapReloadTimes :: "int option"
  notifierConfig :: "NotifierConfig option"
  scavengeSynchronously :: bool
  getCurrentTime :: "(nat \<Rightarrow> string option) option"

text \<open>\<^verbatim>\<open>x || d\<close> on an optional number: the default also replaces zero.\<close>

definition or_default :: "int option \<Rightarrow> int \<Rightarrow> int" where
  "or_default x d = (case x of None \<Rightarrow> d | Some n \<Rightarrow> if n = 0 then d else n)"

definition currentTime :: "PgStreamStoreConfig \<Rightarrow> store \<Rightarrow> string option" where
  "currentTime config s =
     (case getCurrentTime config of None \<Rightarrow> None | Some f \<Rightarrow> f (length (trace s)))"

definition createPostgresStreamStore :: "PgStreamStoreConfig \<Rightarrow> store" where
  "createPostgresStreamStore config =
     \<lparr>subscriptions = [], notifier = None, disposing = False, trace = [],
      backoffs = []\<rparr>"

subsection \<open>The functions of the module (lines 1340 to 1501)\<close>

text \<open>\<^verbatim>\<open>throwIfErrorCode\<close>, lines 1372 to 1376: the error it throws, if any.\<close>

definition throwIfErrorCode :: "int \<Rightarrow> error option" where
  "throwIfErrorCode version =
     (if version = ConcurrencyIssue then Some ConcurrencyError else None)"

text \<open>\<^verbatim>\<open>mapMessageResult\<close>, lines 1417 to 1428.\<close>

definition mapMessageResult :: "message_row \<Rightarrow> StreamMessage" where
  "mapMessageResult m =
     \<lparr>StreamMessage.streamId = stream_id m,
      messageId = message_id m,
      StreamMessage.data = message_row.data m,
      StreamMessage.meta = message_row.meta m,
      createdAt = created_at m,
      StreamMessage.type = message_row.type m,
      StreamMessage.position = message_row.position m,
      StreamMessage.streamVersion = message_row.stream_version m\<rparr>"

text \<open>\<^verbatim>\<open>x || null\<close>.\<close>

definition or_null :: "jsval \<Rightarrow> jsval" where
  "or_null v = (if falsy v then Null else v)"

text \<open>
  \<^verbatim>\<open>mapReadStreamResult\<close>, lines 1385 to 1409. Reading backward with
  \<^verbatim>\<open>isEnd\<close> false and no message reads a property of \<^verbatim>\<open>null\<close>.
\<close>

definition mapReadStreamResult ::
  "message_row list \<Rightarrow> info_row \<Rightarrow> bool \<Rightarrow> bool \<Rightarrow> error + ReadStreamResult" where
  "mapReadStreamResult msgs streamInfo is_end forward =
     (let lastMessage = (if length msgs > 0 then Some (last msgs) else None);
          next =
            (if forward
             then Inr ((case lastMessage of
                          Some l \<Rightarrow>
                            if is_end then info_row.stream_version streamInfo
                            else message_row.stream_version l
                        | None \<Rightarrow> info_row.stream_version streamInfo) + 1)
             else (if is_end then Inr (max 0 (0 - 1))
                   else (case lastMessage of
                           None \<Rightarrow> Inl (TypeError ''Cannot read property stream_version of null'')
                         | Some l \<Rightarrow> Inr (max 0 (message_row.stream_version l - 1)))))
      in case next of
           Inl e \<Rightarrow> Inl e
         | Inr v \<Rightarrow>
             Inr \<lparr>nextVersion = v,
                  ReadStreamResult.streamId = info_row.id streamInfo,
                  ReadStreamResult.streamPosition = info_row.position streamInfo,
                  ReadStreamResult.streamVersion = info_row.stream_version streamInfo,
                  ReadStreamResult.maxAge = or_null (info_row.max_age streamInfo),
                  ReadStreamResult.maxCount = or_null (info_row.max_count streamInfo),
                  streamType = stream_type streamInfo,
                  ReadStreamResult.isEnd = is_end,
                  ReadStreamResult.messages = map mapMessageResult msgs\<rparr>)"

text \<open>Lines 1434 to 1447.\<close>

definition isConcurrencyUniqueConstraintViolation :: "error \<Rightarrow> bool" where
  "isConcurrencyUniqueConstraintViolation err =
     (endsWith (message err) ''\"stream_id_key\"''
      \<or> endsWith (message err) ''\"message_stream_id_internal_stream_version_unique\"'')"

definition isDuplicateMessageIdUniqueConstraintViolation :: "error \<Rightarrow> bool" where
  "isDuplicateMessageIdUniqueConstraintViolation err =
     endsWith (message err) ''\"message_message_id_key\"''"

text \<open>
  The regular expression \<^verbatim>\<open>/=\((.*?)\)/\<close>. \<open>match_here\<close> matches it at
  the start of the input and gives the group: after \<^verbatim>\<open>=(\<close>, the lazy
  \<^verbatim>\<open>.*?\<close> takes the characters up to the first \<^verbatim>\<open>)\<close>, none of
  which may be a line terminator. \<open>regex_exec\<close> is \<^verbatim>\<open>exec\<close> on a fresh
  expression: the leftmost match. Characters are bytes here, so the line terminators
  are line feed and carriage return.
\<close>

definition line_terminator :: "char \<Rightarrow> bool" where
  "line_terminator c = (c = CHR 0x0A \<or> c = CHR 0x0D)"

definition match_here :: "string \<Rightarrow> string option" where
  "match_here s =
     (if startsWith s ''=(''
      then (let inner = takeWhile (\<lambda>c. c \<noteq> CHR '')'' \<and> \<not> line_terminator c) (drop 2 s);
                after = drop (length inner) (drop 2 s)
            in if startsWith after '')'' then Some inner else None)
      else None)"

fun regex_exec :: "string \<Rightarrow> string option" where
  "regex_exec [] = None"
| "regex_exec (c # cs) =
     (case match_here (c # cs) of
        Some g \<Rightarrow> Some g
      | None \<Rightarrow> regex_exec cs)"

text \<open>
  \<^verbatim>\<open>extractUuidKeyFromConstraintViolationError\<close>, lines 1454 to 1461. A missing
  \<^verbatim>\<open>detail\<close> is converted to the string \<^verbatim>\<open>undefined\<close> by
  \<^verbatim>\<open>exec\<close>.
\<close>

definition extractUuidKeyFromConstraintViolationError :: "error \<Rightarrow> string" where
  "extractUuidKeyFromConstraintViolationError err =
     (case regex_exec (case detail err of None \<Rightarrow> ''undefined'' | Some d \<Rightarrow> d) of
        Some g \<Rightarrow> g
      | None \<Rightarrow> ''[unable to parse]'')"

text \<open>
  What an attempt throws: \<open>Again e\<close> is the value \<^verbatim>\<open>again(e)\<close>, which asks
  \<^verbatim>\<open>retry\<close> for another attempt; \<open>Fail e\<close> is the error \<open>e\<close>
  itself.
\<close>

datatype thrown = Again error | Fail error

text \<open>\<^verbatim>\<open>handlePotentialConcurrencyError\<close>, lines 1347 to 1367.\<close>

definition handlePotentialConcurrencyError ::
  "error \<Rightarrow> jsval \<Rightarrow> (error \<Rightarrow> thrown) \<Rightarrow> thrown" where
  "handlePotentialConcurrencyError err expectedVersion again =
     (if isConcurrencyUniqueConstraintViolation err
      then (if expectedVersion = Num ExpectedVersion_Any then again err
            else Fail ConcurrencyError)
      else if isDuplicateMessageIdUniqueConstraintViolation err
      then Fail (DuplicateMessageError (extractUuidKeyFromConstraintViolationError err))
      else Fail err)"

text \<open>\<^verbatim>\<open>createStreamDeletedPayload\<close>, lines 1467 to 1469.\<close>

definition createStreamDeletedPayload :: "string \<Rightarrow> jsval" where
  "createStreamDeletedPayload sid = Obj [(''streamId'', Str sid)]"

text \<open>
  Modelled from the spec: the operational names of \<^verbatim>\<open>src/types/messages.ts\<close>,
  which is not among the sources. The spec names the message types
  \<^verbatim>\<open>$streamMetadata\<close> and \<^verbatim>\<open>$streamDeleted\<close> and the stream
  \<^verbatim>\<open>$deleted\<close>.
\<close>

definition OperationalMessageType_Metadata :: string where
  "OperationalMessageType_Metadata = ''$streamMetadata''"

definition OperationalMessageType_StreamDeleted :: string where
  "OperationalMessageType_StreamDeleted = ''$streamDeleted''"

definition OperationalStream_Deleted :: string where
  "OperationalStream_Deleted = ''$deleted''"

subsection \<open>Retrying\<close>

text \<open>
  Modelled from the spec: \<^verbatim>\<open>retry\<close> of the library \<^verbatim>\<open>fejl\<close>, which
  is not part of the repository. The spec says that an attempt that asks for it is
  retried with exponential backoff, up to \<^verbatim>\<open>tries\<close> attempts. Before the
  attempt number \<open>k\<close> (the first attempt is number 0) the loop waits; \<open>wait\<close>
  records the wait with the options it is made under, and \<open>delay\<close> is its length in
  milliseconds: \<^verbatim>\<open>minTimeout\<close> times \<^verbatim>\<open>factor\<close> to the power
  \<open>k\<close>, not below \<^verbatim>\<open>minTimeout\<close> and not above
  \<^verbatim>\<open>maxTimeout\<close>. An attempt that throws \<open>Fail e\<close> ends the loop with
  \<open>e\<close>; when the last attempt asks for another one, the error it wrapped is thrown.
  \<open>retry_loop opts k r\<close> starts with the attempt number \<open>k\<close> and makes at most
  \<open>r + 1\<close> attempts.
\<close>

definition delay :: "RetryOptions \<Rightarrow> nat \<Rightarrow> real" where
  "delay opts k =
     min (real (maxTimeout opts))
       (max (real (minTimeout opts)) (real (minTimeout opts) * factor opts ^ k))"

definition wait :: "RetryOptions \<Rightarrow> nat \<Rightarrow> store \<Rightarrow> store" where
  "wait opts k s = s\<lparr>backoffs := backoffs s @ [(opts, k)]\<rparr>"

fun retry_loop ::
  "RetryOptions \<Rightarrow> nat \<Rightarrow> nat \<Rightarrow> (store \<Rightarrow> (thrown + 'a) \<times> store) \<Rightarrow> store
     \<Rightarrow> (error + 'a) \<times> store" where
  "retry_loop opts k 0 fn s =
     (case fn s of
        (Inr v, s') \<Rightarrow> (Inr v, s')
      | (Inl (Fail e), s') \<Rightarrow> (Inl e, s')
      | (Inl (Again e), s') \<Rightarrow> (Inl e, s'))"
| "retry_loop opts k (Suc r) fn s =
     (case fn s of
        (Inr v, s') \<Rightarrow> (Inr v, s')
      | (Inl (Fail e), s') \<Rightarrow> (Inl e, s')
      | (Inl (Again e), s') \<Rightarrow> retry_loop opts (Suc k) r fn (wait opts (Suc k) s'))"

definition retry ::
  "(store \<Rightarrow> (thrown + 'a) \<times> store) \<Rightarrow> RetryOptions \<Rightarrow> store
     \<Rightarrow> (error + 'a) \<times> store" where
  "retry fn opts s = retry_loop opts 0 (tries opts - 1) fn s"

subsection \<open>Writing\<close>

text \<open>
  \<^verbatim>\<open>maybeScavenge\<close>, lines 1292 to 1318: its body returns for an operational
  stream and does nothing otherwise (the rest is commented out in the source).
\<close>

definition maybeScavenge :: "string \<Rightarrow> jsval \<Rightarrow> jsval \<Rightarrow> store \<Rightarrow> store" where
  "maybeScavenge sid age cnt s = (if startsWith sid ''$'' then s else s)"

text \<open>\<^verbatim>\<open>insertMessages\<close>, lines 1263 to 1281: one query, in a transaction.\<close>

definition insertMessages ::
  "PgStreamStoreConfig \<Rightarrow> InsertResult pool \<Rightarrow> string \<Rightarrow> jsval \<Rightarrow> NewStreamMessage list
     \<Rightarrow> store \<Rightarrow> (error + InsertResult) \<times> store" where
  "insertMessages config pool sid expectedVersion newMessages s =
     (let q = Q_append sid (toMetadataStreamId sid) expectedVersion (currentTime config s)
                newMessages
      in (pool (length (trace s)) q, emit (Query q) s))"

text \<open>
  The checks that open \<^verbatim>\<open>appendToStream\<close>, lines 772 to 781, in the order of
  the source. \<open>message_invariants i m\<close> is the body of the \<^verbatim>\<open>forEach\<close>
  for the message \<open>m\<close> at index \<open>i\<close>.
\<close>

definition field_name :: "nat \<Rightarrow> string \<Rightarrow> string" where
  "field_name i f = ''newMessages['' @ toString_nat i @ ''].'' @ f"

definition message_invariants :: "nat \<Rightarrow> NewStreamMessage \<Rightarrow> error option" where
  "message_invariants i m =
     first_error
       [required (field_name i ''messageId'') (get m ''messageId''),
        uuid (field_name i ''messageId'') (get m ''messageId''),
        required (field_name i ''type'') (get m ''type''),
        required (field_name i ''data'') (get m ''data'')]"

fun forEach_invariants :: "nat \<Rightarrow> NewStreamMessage list \<Rightarrow> error option" where
  "forEach_invariants i [] = None"
| "forEach_invariants i (m # ms) =
     (case message_invariants i m of
        Some e \<Rightarrow> Some e
      | None \<Rightarrow> forEach_invariants (Suc i) ms)"

definition appendToStream_invariants ::
  "string \<Rightarrow> jsval \<Rightarrow> NewStreamMessage list \<Rightarrow> error option" where
  "appendToStream_invariants sid expectedVersion newMessages =
     first_error
       [requiredString ''streamId'' sid,
        notOperationalStream ''streamId'' sid,
        required ''expectedVersion'' expectedVersion,
        required ''newMessages'' (Arr (map Obj newMessages)),
        forEach_invariants 0 newMessages]"

text \<open>
  \<^verbatim>\<open>retryableAppendToStream\<close>, lines 784 to 803: one attempt. The result is the
  object \<^verbatim>\<open>{streamPosition, streamVersion, maxAge, maxCount}\<close>, a tuple here.
\<close>

definition retryableAppendToStream ::
  "PgStreamStoreConfig \<Rightarrow> InsertResult pool \<Rightarrow> string \<Rightarrow> jsval \<Rightarrow> NewStreamMessage list
     \<Rightarrow> (error \<Rightarrow> thrown) \<Rightarrow> store
     \<Rightarrow> (thrown + string \<times> int \<times> jsval \<times> jsval) \<times> store" where
  "retryableAppendToStream config pool sid expectedVersion newMessages again s =
     (case insertMessages config pool sid expectedVersion newMessages s of
        (Inl err, s') \<Rightarrow> (Inl (handlePotentialConcurrencyError err expectedVersion again), s')
      | (Inr row, s') \<Rightarrow>
          (case throwIfErrorCode (current_version row) of
             Some err \<Rightarrow> (Inl (handlePotentialConcurrencyError err expectedVersion again), s')
           | None \<Rightarrow>
               (Inr (current_position row, current_version row,
                     InsertResult.max_age row, InsertResult.max_count row), s')))"

text \<open>\<^verbatim>\<open>appendToStream\<close>, lines 767 to 827.\<close>

definition appendToStream ::
  "PgStreamStoreConfig \<Rightarrow> InsertResult pool \<Rightarrow> string \<Rightarrow> jsval \<Rightarrow> NewStreamMessage list
     \<Rightarrow> store \<Rightarrow> (error + AppendToStreamResult) \<times> store" where
  "appendToStream config pool sid expectedVersion newMessages s =
     (case appendToStream_invariants sid expectedVersion newMessages of
        Some e \<Rightarrow> (Inl e, s)
      | None \<Rightarrow>
          if disposing s
          then (Inl (DisposedError
                  ''The stream store has been disposed and is not accepting writes.''), s)
          else
            (case retry (retryableAppendToStream config pool sid expectedVersion newMessages
                           Again) retryOpts (emit LatchEnter s) of
               (Inl e, s') \<Rightarrow> (Inl e, emit LatchExit s')
             | (Inr (pos, ver, age, cnt), s') \<Rightarrow>
                 (Inr \<lparr>streamPosition = pos, streamVersion = ver\<rparr>,
                  emit LatchExit (maybeScavenge sid age cnt s'))))"

text \<open>
  \<^verbatim>\<open>setStreamMetadata\<close>, lines 1027 to 1068. \<open>v4\<close> is the generator of
  \<^verbatim>\<open>uuid\<close>: the identifier it gives at a moment of the trace. The pool
  answers with \<^verbatim>\<open>current_version\<close> of the first row.
\<close>

definition setStreamMetadata ::
  "PgStreamStoreConfig \<Rightarrow> (nat \<Rightarrow> string) \<Rightarrow> int pool \<Rightarrow> string \<Rightarrow> jsval \<Rightarrow> jsval
     \<Rightarrow> store \<Rightarrow> (error + int) \<times> store" where
  "setStreamMetadata config v4 pool sid expectedVersion opts s =
     (case first_error
             [requiredString ''streamId'' sid,
              required ''expectedVersion'' expectedVersion,
              required ''opts'' opts] of
        Some e \<Rightarrow> (Inl e, s)
      | None \<Rightarrow>
          (let metaStreamId = toMetadataStreamId sid;
               s1 = emit LatchEnter s;
               age = or_null (jsprop opts ''maxAge'');
               cnt = or_null (jsprop opts ''maxCount'');
               d = Obj [(''metadata'',
                          if falsy (jsprop opts ''metadata'') then Obj []
                          else jsprop opts ''metadata''),
                        (''maxAge'', age),
                        (''maxCount'', cnt)];
               q = Q_setStreamMetadata sid metaStreamId expectedVersion age cnt
                     (currentTime config s1)
                     [(''data'', d),
                      (''messageId'', Str (v4 (length (trace s1)))),
                      (''type'', Str OperationalMessageType_Metadata)];
               s2 = emit (Query q) s1
           in case pool (length (trace s1)) q of
                Inl e \<Rightarrow> (Inl e, emit LatchExit s2)
              | Inr version \<Rightarrow>
                  (case throwIfErrorCode version of
                     Some e \<Rightarrow> (Inl e, emit LatchExit s2)
                   | None \<Rightarrow> (Inr version, emit LatchExit (maybeScavenge sid age cnt s2)))))"

text \<open>
  \<^verbatim>\<open>retryableDeleteStream\<close>, lines 1085 to 1106: one attempt. The pool answers
  with \<^verbatim>\<open>delete_stream\<close> of the first row.
\<close>

definition retryableDeleteStream ::
  "PgStreamStoreConfig \<Rightarrow> (nat \<Rightarrow> string) \<Rightarrow> int pool \<Rightarrow> string \<Rightarrow> jsval
     \<Rightarrow> (error \<Rightarrow> thrown) \<Rightarrow> store \<Rightarrow> (thrown + unit) \<times> store" where
  "retryableDeleteStream config v4 pool sid expectedVersion again s =
     (let q = Q_deleteStream sid OperationalStream_Deleted expectedVersion
                (currentTime config s)
                [(''type'', Str OperationalMessageType_StreamDeleted),
                 (''messageId'', Str (v4 (length (trace s)))),
                 (''data'', createStreamDeletedPayload sid)];
          s' = emit (Query q) s
      in case pool (length (trace s)) q of
           Inl err \<Rightarrow> (Inl (handlePotentialConcurrencyError err expectedVersion again), s')
         | Inr result \<Rightarrow>
             (case throwIfErrorCode result of
                Some err \<Rightarrow>
                  (Inl (handlePotentialConcurrencyError err expectedVersion again), s')
              | None \<Rightarrow> (Inr (), s')))"

text \<open>
  \<^verbatim>\<open>deleteStream\<close>, lines 1076 to 1112. The promise of \<^verbatim>\<open>retry\<close> is
  returned without \<^verbatim>\<open>await\<close>, so the \<^verbatim>\<open>finally\<close> block leaves the
  latch as soon as the first attempt has been started, before the transaction has
  sent its query.
\<close>

definition deleteStream ::
  "PgStreamStoreConfig \<Rightarrow> (nat \<Rightarrow> string) \<Rightarrow> int pool \<Rightarrow> string \<Rightarrow> jsval
     \<Rightarrow> store \<Rightarrow> (error + unit) \<times> store" where
  "deleteStream config v4 pool sid expectedVersion s =
     (case first_error
             [requiredString ''streamId'' sid,
              notOperationalStream ''streamId'' sid,
              required ''expectedVersion'' expectedVersion] of
        Some e \<Rightarrow> (Inl e, s)
      | None \<Rightarrow>
          retry (retryableDeleteStream config v4 pool sid expectedVersion Again) retryOpts
            (emit LatchExit (emit LatchEnter s)))"

text \<open>\<^verbatim>\<open>deleteMessages\<close> and \<^verbatim>\<open>deleteMessage\<close>, lines 1120 to 1150.\<close>

definition deleteMessages ::
  "unit pool \<Rightarrow> string \<Rightarrow> string list \<Rightarrow> store \<Rightarrow> (error + unit) \<times> store" where
  "deleteMessages pool sid messageIds s =
     (let s1 = emit LatchEnter s;
          q = Q_deleteMessages sid messageIds;
          s2 = emit (Query q) s1
      in case pool (length (trace s1)) q of
           Inl e \<Rightarrow> (Inl e, emit LatchExit s2)
         | Inr u \<Rightarrow> (Inr (), emit LatchExit s2))"

definition deleteMessage ::
  "unit pool \<Rightarrow> string \<Rightarrow> string \<Rightarrow> store \<Rightarrow> (error + unit) \<times> store" where
  "deleteMessage pool sid mid s = deleteMessages pool sid [mid] s"

subsection \<open>Reading\<close>

text \<open>
  \<^verbatim>\<open>readHeadPosition\<close>, lines 832 to 835. The pool answers with
  \<^verbatim>\<open>pos\<close> of the first row, which may be \<^verbatim>\<open>null\<close>.
\<close>

definition readHeadPosition ::
  "string option pool \<Rightarrow> store \<Rightarrow> (error + string) \<times> store" where
  "readHeadPosition pool s =
     (let q = Q_readHeadPosition;
          s' = emit (Query q) s
      in case pool (length (trace s)) q of
           Inl e \<Rightarrow> (Inl e, s')
         | Inr pos \<Rightarrow>
             (Inr (case pos of None \<Rightarrow> ''0'' | Some v \<Rightarrow> if v = [] then ''0'' else v), s'))"

text \<open>
  \<^verbatim>\<open>readStream\<close>, lines 844 to 899. The pool answers the batch with the rows
  of its two statements: the messages and the stream's info.
\<close>

definition readStream ::
  "int \<Rightarrow> (message_row list \<times> info_row list) pool \<Rightarrow> string \<Rightarrow> int \<Rightarrow> int
     \<Rightarrow> ReadDirection \<Rightarrow> store \<Rightarrow> (error + ReadStreamResult) \<times> store" where
  "readStream Position_End pool sid fromVersionInclusive count direction s =
     (case first_error
             [requiredString ''streamId'' sid,
              required ''afterVersion'' (Num fromVersionInclusive),
              required ''count'' (Num count),
              assert (count > 0) ''count must be greater than zero''] of
        Some e \<Rightarrow> (Inl e, s)
      | None \<Rightarrow>
          (let fromVersion =
                 (if fromVersionInclusive = Position_End then MAX_SAFE_INTEGER
                  else fromVersionInclusive);
               forward = (direction = Forward);
               readStreamInfoQuery = Q_readStreamInfo sid;
               readStreamMessagesQuery =
                 Q_readStreamMessages sid (max 0 fromVersion) (count + 1) forward;
               q = Batch readStreamMessagesQuery readStreamInfoQuery;
               s' = emit (Query q) s
           in case pool (length (trace s)) q of
                Inl e \<Rightarrow> (Inl e, s')
              | Inr (messagesResult, infoResult) \<Rightarrow>
                  (case infoResult of
                     [] \<Rightarrow>
                       (Inr \<lparr>nextVersion = 0,
                             ReadStreamResult.streamId = sid,
                             ReadStreamResult.streamPosition = ''0'',
                             ReadStreamResult.streamVersion = 0,
                             ReadStreamResult.maxAge = Num 0,
                             ReadStreamResult.maxCount = Num 0,
                             streamType = Undefined,
                             ReadStreamResult.isEnd = True,
                             ReadStreamResult.messages = []\<rparr>, s')
                   | streamInfo # rest \<Rightarrow>
                       (if int (length messagesResult) = count + 1
                        then (mapReadStreamResult (butlast messagesResult) streamInfo False
                                forward, s')
                        else (mapReadStreamResult messagesResult streamInfo True
                                forward, s')))))"

text \<open>
  \<^verbatim>\<open>readAllInternal\<close>, lines 933 to 988. When the probe row is the only row
  (\<^verbatim>\<open>count\<close> is zero), no last message is left and reading its position
  throws.
\<close>

definition readAllInternal ::
  "int \<Rightarrow> message_row list pool \<Rightarrow> position_arg \<Rightarrow> int \<Rightarrow> ReadDirection
     \<Rightarrow> store \<Rightarrow> (error + ReadAllResult) \<times> store" where
  "readAllInternal Position_End pool fromPositionInclusive count direction s =
     (let fromPosition =
            (if toString fromPositionInclusive = toString_int Position_End
             then PosString MAX_BIG_VALUE
             else fromPositionInclusive);
          forward = (direction = Forward);
          q = Q_readAllMessages (count + 1) (toString fromPosition) forward;
          s' = emit (Query q) s
      in case pool (length (trace s)) q of
           Inl e \<Rightarrow> (Inl e, s')
         | Inr rows \<Rightarrow>
             (let msgs = map mapMessageResult rows
              in if length msgs = 0
                 then (Inr \<lparr>ReadAllResult.isEnd = True,
                            ReadAllResult.messages = [],
                            nextPosition = (if forward then toString fromPosition else ''0'')\<rparr>,
                       s')
                 else
                   (let is_end = (int (length msgs) \<noteq> count + 1);
                        page = (if is_end then msgs else butlast msgs)
                    in if page = []
                       then (Inl (TypeError ''Cannot read property position of undefined''), s')
                       else
                         (case BigInteger (StreamMessage.position (last page)) of
                            None \<Rightarrow>
                              (Inl (JsError (''Invalid integer: ''
                                       @ StreamMessage.position (last page))), s')
                          | Some p \<Rightarrow>
                              (Inr \<lparr>ReadAllResult.isEnd = is_end,
                                    ReadAllResult.messages = page,
                                    nextPosition =
                                      (if forward then toString_int (p + 1)
                                       else toString_int (max (p - 1) 0))\<rparr>, s')))))"

text \<open>
  \<^verbatim>\<open>readAll\<close>, lines 907 to 926. \<^verbatim>\<open>detectGapsAndReloadAll\<close> of
  \<^verbatim>\<open>src/utils/gap-detection.ts\<close> is not among the sources: it is a parameter,
  given the delay, the number of reloads, the position, the count and the reader.
\<close>

type_synonym all_reader =
  "position_arg \<Rightarrow> int \<Rightarrow> store \<Rightarrow> (error + ReadAllResult) \<times> store"

definition readAll ::
  "int \<Rightarrow> (int \<Rightarrow> int \<Rightarrow> position_arg \<Rightarrow> int \<Rightarrow> all_reader \<Rightarrow> store
            \<Rightarrow> (error + ReadAllResult) \<times> store)
     \<Rightarrow> PgStreamStoreConfig \<Rightarrow> message_row list pool \<Rightarrow> position_arg \<Rightarrow> int
     \<Rightarrow> ReadDirection \<Rightarrow> store \<Rightarrow> (error + ReadAllResult) \<times> store" where
  "readAll Position_End detectGapsAndReloadAll config pool fromPositionInclusive count
     direction s =
     (case first_error
             [required ''fromPositionInclusive'' (js_of_position fromPositionInclusive),
              required ''count'' (Num count),
              assert (count > 0) ''count should be greater than zero''] of
        Some e \<Rightarrow> (Inl e, s)
      | None \<Rightarrow>
          if direction \<noteq> Backward
          then detectGapsAndReloadAll
                 (or_default (gapReloadDelay config) 5000)
                 (or_default (gapReloadTimes config) 1)
                 fromPositionInclusive count
                 (\<lambda>p c. readAllInternal Position_End pool p c Forward) s
          else readAllInternal Position_End pool fromPositionInclusive count Backward s)"

text \<open>\<^verbatim>\<open>getStreamMetadata\<close>, lines 994 to 1022.\<close>

definition getStreamMetadata ::
  "int \<Rightarrow> (message_row list \<times> info_row list) pool \<Rightarrow> string \<Rightarrow> store
     \<Rightarrow> (error + StreamMetadataResult) \<times> store" where
  "getStreamMetadata Position_End pool sid s =
     (case requiredString ''streamId'' sid of
        Some e \<Rightarrow> (Inl e, s)
      | None \<Rightarrow>
          (case readStream Position_End pool (toMetadataStreamId sid) Position_End 1
                  Backward s of
             (Inl e, s') \<Rightarrow> (Inl e, s')
           | (Inr result, s') \<Rightarrow>
               (case ReadStreamResult.messages result of
                  [m] \<Rightarrow>
                    if StreamMessage.data m = Null \<or> StreamMessage.data m = Undefined
                    then (Inl (TypeError ''Cannot read property metadata of null''), s')
                    else
                      (Inr \<lparr>StreamMetadataResult.streamId = sid,
                            metadata = jsprop (StreamMessage.data m) ''metadata'',
                            metadataStreamVersion = ReadStreamResult.streamVersion result,
                            StreamMetadataResult.maxAge =
                              or_null (jsprop (StreamMessage.data m) ''maxAge''),
                            StreamMetadataResult.maxCount =
                              or_null (jsprop (StreamMessage.data m) ''maxCount'')\<rparr>, s')
                | other \<Rightarrow>
                    (Inr \<lparr>StreamMetadataResult.streamId = sid,
                          metadata = Null,
                          metadataStreamVersion = - 1,
                          StreamMetadataResult.maxAge = Null,
                          StreamMetadataResult.maxCount = Null\<rparr>, s'))))"

subsection \<open>Subscribing and disposing\<close>

text \<open>\<^verbatim>\<open>getNotifier\<close>, lines 1323 to 1337.\<close>

definition getNotifier :: "PgStreamStoreConfig \<Rightarrow> store \<Rightarrow> notifier \<times> store" where
  "getNotifier config s =
     (case notifier s of
        Some n \<Rightarrow> (n, s)
      | None \<Rightarrow>
          (let n = (case (case notifierConfig config of None \<Rightarrow> Poll None | Some c \<Rightarrow> c) of
                      PgNotify keepAliveInterval \<Rightarrow>
                        PostgresNotifier (length (trace s)) keepAliveInterval
                    | Poll pollingInterval \<Rightarrow>
                        PollingNotifier (length (trace s)) (or_default pollingInterval 500))
           in (n, (emit (CreateNotifier n) s)\<lparr>notifier := Some n\<rparr>)))"

text \<open>
  \<^verbatim>\<open>subscribeToStream\<close> and \<^verbatim>\<open>subscribeToAll\<close>, lines 1159 to 1217.
  The subscription drivers are not among the sources; a subscription is the object
  built from the stream id and the notifier it was given.
\<close>

definition subscribeToStream ::
  "PgStreamStoreConfig \<Rightarrow> string \<Rightarrow> store \<Rightarrow> subscription \<times> store" where
  "subscribeToStream config sid s =
     (case getNotifier config s of
        (n, s1) \<Rightarrow>
          (let sub = StreamSubscription (length (trace s1)) sid n;
               s2 = emit (CreateSubscription sub) s1
           in (sub, s2\<lparr>subscriptions := subscriptions s2 @ [sub]\<rparr>)))"

definition subscribeToAll :: "PgStreamStoreConfig \<Rightarrow> store \<Rightarrow> subscription \<times> store" where
  "subscribeToAll config s =
     (case getNotifier config s of
        (n, s1) \<Rightarrow>
          (let sub = AllSubscription (length (trace s1)) n;
               s2 = emit (CreateSubscription sub) s1
           in (sub, s2\<lparr>subscriptions := subscriptions s2 @ [sub]\<rparr>)))"

text \<open>
  \<^verbatim>\<open>Array.prototype.indexOf\<close> and \<^verbatim>\<open>splice(i, 1)\<close>: an index below
  zero counts from the end.
\<close>

fun indexOf :: "'a list \<Rightarrow> 'a \<Rightarrow> int" where
  "indexOf [] x = - 1"
| "indexOf (y # ys) x =
     (if y = x then 0 else (let i = indexOf ys x in if i < 0 then - 1 else i + 1))"

definition splice1 :: "int \<Rightarrow> 'a list \<Rightarrow> 'a list" where
  "splice1 i xs =
     (let start = (if i < 0 then max (int (length xs) + i) 0 else min i (int (length xs)))
      in take (nat start) xs @ drop (Suc (nat start)) xs)"

text \<open>
  The \<^verbatim>\<open>dispose\<close> option the store gives to a subscription (lines 1176 to 1180
  and 1208 to 1212), as far as it touches the store.
\<close>

definition subscription_disposed :: "subscription \<Rightarrow> store \<Rightarrow> store" where
  "subscription_disposed sub s =
     s\<lparr>subscriptions := splice1 (indexOf (subscriptions s) sub) (subscriptions s)\<rparr>"

text \<open>
  Modelled from the spec: \<^verbatim>\<open>dispose\<close> of a subscription, whose driver is not
  among the sources. The spec says that it calls the configured
  \<^verbatim>\<open>dispose\<close> callback, by which the store removes the subscription from its
  tracked set.
\<close>

definition dispose_subscription :: "subscription \<Rightarrow> store \<Rightarrow> store" where
  "dispose_subscription sub s = subscription_disposed sub (emit (DisposeSubscription sub) s)"

text \<open>\<^verbatim>\<open>dispose\<close>, lines 1222 to 1242.\<close>

definition dispose :: "store \<Rightarrow> store" where
  "dispose s =
     (let s1 = s\<lparr>disposing := True\<rparr>;
          s2 = fold dispose_subscription (subscriptions s1) s1;
          s3 = (case notifier s2 of
                  Some n \<Rightarrow> emit (DisposeNotifier n) s2
                | None \<Rightarrow> s2);
          s4 = emit LatchWait s3
      in emit PoolEnd s4)"

subsection \<open>Reading a trace\<close>

text \<open>The storage queries of a trace, in the order they were made.\<close>

fun queries_of :: "event list \<Rightarrow> query list" where
  "queries_of [] = []"
| "queries_of (Query q # es) = q # queries_of es"
| "queries_of (e # es) = queries_of es"

definition queries :: "store \<Rightarrow> query list" where
  "queries s = queries_of (trace s)"

text \<open>
  A configuration with every option left out, and the store it creates: the inputs of
  the concrete evaluations below.
\<close>

definition config0 :: PgStreamStoreConfig where
  "config0 =
     \<lparr>gapReloadDelay = None, gapReloadTimes = None, notifierConfig = None,
      scavengeSynchronously = False, getCurrentTime = None\<rparr>"

definition store0 :: store where
  "store0 = createPostgresStreamStore config0"

text \<open>
  A message row and an info row of the stream \<^verbatim>\<open>orders\<close>, with the given
  version and position.
\<close>

definition example_row :: "int \<Rightarrow> string \<Rightarrow> message_row" where
  "example_row ver pos =
     \<lparr>stream_id = ''orders'',
      message_id = ''123e4567-e89b-12d3-a456-426614174000'',
      message_row.data = Obj [],
      message_row.meta = Null,
      created_at = Null,
      message_row.type = ''greeting'',
      message_row.position = pos,
      message_row.stream_version = ver\<rparr>"

definition example_info :: "int \<Rightarrow> string \<Rightarrow> info_row" where
  "example_info ver pos =
     \<lparr>id = ''orders'',
      info_row.stream_version = ver,
      info_row.position = pos,
      info_row.max_age = Null,
      info_row.max_count = Null,
      stream_type = Undefined\<rparr>"

subsection \<open>The states a store goes through\<close>

text \<open>
  The states of a store: the one \<^verbatim>\<open>createPostgresStreamStore\<close> returns, and
  the state after any call of an operation of the store, with any arguments and any
  answers of the storage, in a reachable state. A subscription handle can be disposed
  by its holder at any time. \<^verbatim>\<open>readAll\<close> stands here by
  \<^verbatim>\<open>readAllInternal\<close>, the only use the gap detection makes of the store.
\<close>

inductive reachable :: "PgStreamStoreConfig \<Rightarrow> store \<Rightarrow> bool" for config where
  created: "reachable config (createPostgresStreamStore config)"
| appended:
    "reachable config s \<Longrightarrow> reachable config (snd (appendToStream config pool sid ev msgs s))"
| head_read: "reachable config s \<Longrightarrow> reachable config (snd (readHeadPosition hpool s))"
| all_read:
    "reachable config s \<Longrightarrow>
       reachable config (snd (readAllInternal Position_End apool p count direction s))"
| stream_read:
    "reachable config s \<Longrightarrow>
       reachable config (snd (readStream Position_End rpool sid v count direction s))"
| metadata_read:
    "reachable config s \<Longrightarrow>
       reachable config (snd (getStreamMetadata Position_End rpool sid s))"
| metadata_set:
    "reachable config s \<Longrightarrow>
       reachable config (snd (setStreamMetadata config v4 mpool sid ev opts s))"
| stream_deleted:
    "reachable config s \<Longrightarrow>
       reachable config (snd (deleteStream config v4 mpool sid ev s))"
| message_deleted:
    "reachable config s \<Longrightarrow> reachable config (snd (deleteMessage upool sid mid s))"
| stream_subscribed:
    "reachable config s \<Longrightarrow> reachable config (snd (subscribeToStream config sid s))"
| all_subscribed:
    "reachable config s \<Longrightarrow> reachable config (snd (subscribeToAll config s))"
| subscription_disposed:
    "reachable config s \<Longrightarrow> reachable config (dispose_subscription sub s)"
| disposed: "reachable config s \<Longrightarrow> reachable config (dispose s)"

text \<open>The notifiers and the subscriptions that a trace has seen created.\<close>

fun created_notifiers :: "event list \<Rightarrow> notifier list" where
  "created_notifiers [] = []"
| "created_notifiers (CreateNotifier n # es) = n # created_notifiers es"
| "created_notifiers (e # es) = created_notifiers es"

fun created_subscriptions :: "event list \<Rightarrow> subscription list" where
  "created_subscriptions [] = []"
| "created_subscriptions (CreateSubscription sub # es) = sub # created_subscriptions es"
| "created_subscriptions (e # es) = created_subscriptions es"

text \<open>
  What \<^verbatim>\<open>getNotifier\<close> builds under a configuration: lines 1327 to 1334
  with the default of line 719.
\<close>

definition configured :: "PgStreamStoreConfig \<Rightarrow> notifier \<Rightarrow> bool" where
  "configured config n =
     (case (case notifierConfig config of None \<Rightarrow> Poll None | Some c \<Rightarrow> c) of
        PgNotify keepAliveInterval \<Rightarrow>
          (case n of
             PostgresNotifier i k \<Rightarrow> k = keepAliveInterval
           | PollingNotifier i ms \<Rightarrow> False)
      | Poll pollingInterval \<Rightarrow>
          (case n of
             PollingNotifier i ms \<Rightarrow> ms = or_default pollingInterval 500
           | PostgresNotifier i k \<Rightarrow> False))"

text \<open>
  \<open>quiet s s'\<close>: between \<open>s\<close> and \<open>s'\<close> the cached notifier has not changed and
  nothing has been created.
\<close>

definition quiet :: "store \<Rightarrow> store \<Rightarrow> bool" where
  "quiet s s' \<longleftrightarrow>
     notifier s' = notifier s
     \<and> created_notifiers (trace s') = created_notifiers (trace s)
     \<and> created_subscriptions (trace s') = created_subscriptions (trace s)"

text \<open>What holds in every state of a store.\<close>

definition notifier_inv :: "PgStreamStoreConfig \<Rightarrow> store \<Rightarrow> bool" where
  "notifier_inv config s \<longleftrightarrow>
     created_notifiers (trace s) = (case notifier s of None \<Rightarrow> [] | Some n \<Rightarrow> [n])
     \<and> (\<forall>sub \<in> set (created_subscriptions (trace s)). notifier s = Some (notifier_of sub))
     \<and> (notifier s = None \<longleftrightarrow> created_subscriptions (trace s) = [])
     \<and> (\<forall>n. notifier s = Some n \<longrightarrow> configured config n)"

text \<open>
  A new message as the tests generate them, and what Postgres answers: the row of a
  successful append, the unique violation of two racing appends, and the unique
  violation of a message id that is already there.
\<close>

definition example_message :: NewStreamMessage where
  "example_message =
     [(''messageId'', Str ''123e4567-e89b-12d3-a456-426614174000''),
      (''data'', Obj [(''hello'', Str ''world'')]),
      (''type'', Str ''greeting'')]"

definition example_insert :: InsertResult where
  "example_insert =
     \<lparr>current_version = 1, current_position = ''8'',
      InsertResult.max_count = Null, InsertResult.max_age = Null\<rparr>"

definition conflict_error :: error where
  "conflict_error =
     StorageError ''duplicate key value violates unique constraint \"stream_id_key\"''
       (Some ''Key (id)=(orders) already exists.'')"

definition duplicate_error :: error where
  "duplicate_error =
     StorageError
       ''duplicate key value violates unique constraint \"message_message_id_key\"''
       (Some ''Key (message_id)=(123e4567-e89b-12d3-a456-426614174000) already exists.'')"

text \<open>
  A pool that answers the queries made up to the moment \<open>n\<close> with the conflict, and
  every later one with \<open>answer\<close>; and the store once \<^verbatim>\<open>dispose\<close> has
  set its flag (line 1223) and waits for the subscriptions.
\<close>

definition conflicts_then :: "nat \<Rightarrow> error + 'r \<Rightarrow> 'r pool" where
  "conflicts_then n answer = (\<lambda>t q. if t \<le> n then Inl conflict_error else answer)"

definition store_disposing :: store where
  "store_disposing = store0\<lparr>disposing := True\<rparr>"

section \<open>Properties\<close>

subsection \<open>Decimal strings\<close>

lemma lt10: "(d::nat) < 10 \<Longrightarrow> d = 0 \<or> d = 1 \<or> d = 2 \<or> d = 3 \<or> d = 4 \<or> d = 5 \<or> d = 6 \<or> d = 7 \<or> d = 8 \<or> d = 9"
  by presburger
lemma digit_value_digit: "(d::nat) < 10 \<Longrightarrow> digit_value (''0123456789'' ! d) = Some d"
  using lt10 [of d] by (auto simp: digit_value_def)

lemma digit_not_minus: "(d::nat) < 10 \<Longrightarrow> ''0123456789'' ! d \<noteq> CHR ''-''"
  using lt10 [of d] by auto

lemma parse_digits_append:
  "parse_digits acc (xs @ ys) =
     (case parse_digits acc xs of None \<Rightarrow> None | Some a \<Rightarrow> parse_digits a ys)"
  by (induction xs arbitrary: acc) (auto split: option.splits)

lemma parse_digits_toString_nat: "parse_digits 0 (toString_nat n) = Some n"
proof (induction n rule: toString_nat.induct)
  case (1 n)
  show ?case
  proof (cases "n < 10")
    case True
    then show ?thesis
      by (subst toString_nat.simps) (simp add: digit_value_digit)
  next
    case False
    then have ih: "parse_digits 0 (toString_nat (n div 10)) = Some (n div 10)"
      using "1.IH" by simp
    have "n mod 10 < 10" by simp
    then have d: "digit_value (''0123456789'' ! (n mod 10)) = Some (n mod 10)"
      by (rule digit_value_digit)
    show ?thesis
      using False
      by (subst toString_nat.simps) (simp add: parse_digits_append ih d)
  qed
qed

lemma toString_nat_hd: "\<exists>c cs. toString_nat n = c # cs \<and> c \<noteq> CHR ''-''"
proof (induction n rule: toString_nat.induct)
  case (1 n)
  show ?case
  proof (cases "n < 10")
    case True
    then show ?thesis
      by (subst toString_nat.simps) (simp add: digit_not_minus)
  next
    case False
    then obtain c cs where "toString_nat (n div 10) = c # cs" "c \<noteq> CHR ''-''"
      using "1.IH" by auto
    then show ?thesis
      using False by (subst toString_nat.simps) simp
  qed
qed

lemma BigInteger_toString_int: "BigInteger (toString_int i) = Some i"
proof (cases "i < 0")
  case True
  obtain c cs where "toString_nat (nat (- i)) = c # cs"
    using toString_nat_hd by blast
  then show ?thesis
    using True parse_digits_toString_nat [of "nat (- i)"]
    by (simp add: BigInteger_def toString_int_def)
next
  case False
  obtain c cs where "toString_nat (nat i) = c # cs" "c \<noteq> CHR ''-''"
    using toString_nat_hd by blast
  then show ?thesis
    using False parse_digits_toString_nat [of "nat i"]
    by (simp add: BigInteger_def toString_int_def)
qed

subsection \<open>Traces\<close>

lemma trace_emit [simp]: "trace (emit e s) = trace s @ [e]"
  by (simp add: emit_def)

lemma disposing_emit [simp]: "disposing (emit e s) = disposing s"
  by (simp add: emit_def)

lemma notifier_emit [simp]: "notifier (emit e s) = notifier s"
  by (simp add: emit_def)

lemma subscriptions_emit [simp]: "subscriptions (emit e s) = subscriptions s"
  by (simp add: emit_def)

lemma backoffs_emit [simp]: "backoffs (emit e s) = backoffs s"
  by (simp add: emit_def)

lemma trace_wait [simp]: "trace (wait opts k s) = trace s"
  by (simp add: wait_def)

lemma backoffs_wait [simp]: "backoffs (wait opts k s) = backoffs s @ [(opts, k)]"
  by (simp add: wait_def)

lemma disposing_wait [simp]: "disposing (wait opts k s) = disposing s"
  by (simp add: wait_def)

lemma notifier_wait [simp]: "notifier (wait opts k s) = notifier s"
  by (simp add: wait_def)

lemma subscriptions_wait [simp]: "subscriptions (wait opts k s) = subscriptions s"
  by (simp add: wait_def)

lemma queries_of_append [simp]: "queries_of (xs @ ys) = queries_of xs @ queries_of ys"
  by (induction xs rule: queries_of.induct) simp_all

lemma queries_emit_Query [simp]: "queries (emit (Query q) s) = queries s @ [q]"
  by (simp add: queries_def)

lemma queries_emit_LatchEnter [simp]: "queries (emit LatchEnter s) = queries s"
  by (simp add: queries_def)

lemma queries_emit_LatchExit [simp]: "queries (emit LatchExit s) = queries s"
  by (simp add: queries_def)

lemma queries_wait [simp]: "queries (wait opts k s) = queries s"
  by (simp add: queries_def)

subsection \<open>Reading a stream\<close>

text \<open>
  Claim C8. When the info statement of \<^verbatim>\<open>readStream\<close> gives no row, the
  stream does not exist and the result is the zero result: version 0, position
  \<^verbatim>\<open>"0"\<close>, next version 0, no message, \<^verbatim>\<open>isEnd\<close> true.
\<close>

theorem readStream_unknown_stream:
  assumes "sid \<noteq> []" and "0 < count"
    and "pool (length (trace s))
           (Batch (Q_readStreamMessages sid
                     (max 0 (if v = Position_End then MAX_SAFE_INTEGER else v))
                     (count + 1) (direction = Forward))
                  (Q_readStreamInfo sid)) = Inr (rows, [])"
  shows "fst (readStream Position_End pool sid v count direction s) =
           Inr \<lparr>nextVersion = 0,
                ReadStreamResult.streamId = sid,
                ReadStreamResult.streamPosition = ''0'',
                ReadStreamResult.streamVersion = 0,
                ReadStreamResult.maxAge = Num 0,
                ReadStreamResult.maxCount = Num 0,
                streamType = Undefined,
                ReadStreamResult.isEnd = True,
                ReadStreamResult.messages = []\<rparr>"
  using assms
  by (simp add: readStream_def requiredString_def required_def assert_def Let_def)

theorem readStream_unknown_stream_witness:
  "fst (readStream (- 1) (\<lambda>t q. Inr ([], [])) ''orders'' 0 10 Forward store0) =
     Inr \<lparr>nextVersion = 0,
          ReadStreamResult.streamId = ''orders'',
          ReadStreamResult.streamPosition = ''0'',
          ReadStreamResult.streamVersion = 0,
          ReadStreamResult.maxAge = Num 0,
          ReadStreamResult.maxCount = Num 0,
          streamType = Undefined,
          ReadStreamResult.isEnd = True,
          ReadStreamResult.messages = []\<rparr>"
  using readStream_unknown_stream
          [of "''orders''" 10 "\<lambda>t q. Inr ([], [])" store0 0 "- 1" Forward "[]"]
  by simp

text \<open>
  Claim C6. For a stream that exists (the info statement gives a row),
  \<^verbatim>\<open>nextVersion\<close> is, reading forward, the stream's version plus one when
  \<^verbatim>\<open>isEnd\<close> is true or the page is empty, and the last message's version
  plus one otherwise; reading backward it is the last message's version (zero when
  \<^verbatim>\<open>isEnd\<close> is true) minus one, but not below zero. A page whose
  \<^verbatim>\<open>isEnd\<close> is false has a last message.
\<close>

theorem readStream_nextVersion:
  assumes "sid \<noteq> []" and "0 < count"
    and "pool (length (trace s))
           (Batch (Q_readStreamMessages sid
                     (max 0 (if v = Position_End then MAX_SAFE_INTEGER else v))
                     (count + 1) (direction = Forward))
                  (Q_readStreamInfo sid)) = Inr (rows, streamInfo # rest)"
  shows "\<exists>r. fst (readStream Position_End pool sid v count direction s) = Inr r
           \<and> ReadStreamResult.streamVersion r = info_row.stream_version streamInfo
           \<and> (ReadStreamResult.isEnd r \<longleftrightarrow> int (length rows) \<noteq> count + 1)
           \<and> (\<not> ReadStreamResult.isEnd r \<longrightarrow> ReadStreamResult.messages r \<noteq> [])
           \<and> (direction = Forward \<longrightarrow>
                  nextVersion r =
                    (if ReadStreamResult.isEnd r \<or> ReadStreamResult.messages r = []
                     then ReadStreamResult.streamVersion r + 1
                     else StreamMessage.streamVersion (last (ReadStreamResult.messages r)) + 1))
           \<and> (direction = Backward \<longrightarrow>
                  nextVersion r =
                    max 0 ((if ReadStreamResult.isEnd r then 0
                            else StreamMessage.streamVersion
                                   (last (ReadStreamResult.messages r))) - 1))"
proof (cases "int (length rows) = count + 1")
  case True
  with assms(2) have ne: "butlast rows \<noteq> []"
    by (cases rows rule: rev_cases) (auto simp: butlast_append)
  have sv: "StreamMessage.streamVersion (last (map mapMessageResult (butlast rows))) =
              message_row.stream_version (last (butlast rows))"
    using ne by (simp add: last_map mapMessageResult_def)
  show ?thesis
    using assms True ne sv
    by (cases direction)
       (simp_all add: readStream_def requiredString_def required_def assert_def Let_def
          mapReadStreamResult_def)
next
  case False
  show ?thesis
    using assms False
    by (cases direction)
       (simp_all add: readStream_def requiredString_def required_def assert_def Let_def
          mapReadStreamResult_def)
qed

lemma readStream_queries:
  assumes "sid \<noteq> []" and "0 < count"
  shows "queries (snd (readStream Position_End pool sid v count direction s)) =
           queries s @
             [Batch (Q_readStreamMessages sid
                       (max 0 (if v = Position_End then MAX_SAFE_INTEGER else v))
                       (count + 1) (direction = Forward))
                    (Q_readStreamInfo sid)]"
  using assms
  by (simp add: readStream_def requiredString_def required_def assert_def Let_def
        split: sum.splits prod.splits list.splits)

text \<open>
  Claim C3, as amended. \<^verbatim>\<open>readStream\<close> replaces \<^verbatim>\<open>Position.End\<close> by
  \<^verbatim>\<open>Number.MAX_SAFE_INTEGER\<close>, that is \<open>2^53 - 1 = 9007199254740991\<close>,
  before it issues its query; it is \<^verbatim>\<open>readAllInternal\<close> that replaces the
  sentinel by the largest 63-bit integer \<open>9223372036854775807\<close>.
\<close>

theorem readStream_Position_End:
  assumes "sid \<noteq> []" and "0 < count"
  shows "queries (snd (readStream Position_End pool sid Position_End count direction s)) =
           queries s @
             [Batch (Q_readStreamMessages sid 9007199254740991 (count + 1)
                       (direction = Forward))
                    (Q_readStreamInfo sid)]
         \<and> (9007199254740991 :: int) = 2 ^ 53 - 1
         \<and> queries (snd (readAllInternal Position_End apool (PosNumber Position_End) count
                             direction s)) =
             queries s @
               [Q_readAllMessages (count + 1) ''9223372036854775807'' (direction = Forward)]
         \<and> BigInteger ''9223372036854775807'' = Some (2 ^ 63 - 1)"
proof -
  have a: "queries (snd (readStream Position_End pool sid Position_End count direction s)) =
           queries s @
             [Batch (Q_readStreamMessages sid 9007199254740991 (count + 1)
                       (direction = Forward))
                    (Q_readStreamInfo sid)]"
    using readStream_queries [OF assms, of Position_End pool Position_End direction s]
    by (simp add: MAX_SAFE_INTEGER_def)
  have b: "queries (snd (readAllInternal Position_End apool (PosNumber Position_End) count
                             direction s)) =
             queries s @
               [Q_readAllMessages (count + 1) ''9223372036854775807'' (direction = Forward)]"
    by (simp add: readAllInternal_def Let_def MAX_BIG_VALUE_def
          split: sum.splits option.splits)
  have c: "BigInteger ''9223372036854775807'' = Some (2 ^ 63 - 1)"
    by (simp add: BigInteger_def digit_value_def)
  show ?thesis
    using a b c by simp
qed

theorem readStream_Position_End_witness:
  "queries (snd (readStream (- 1) (\<lambda>t q. Inr ([], [])) ''orders'' (- 1) 10 Backward store0)) =
     [Batch (Q_readStreamMessages ''orders'' 9007199254740991 11 False)
            (Q_readStreamInfo ''orders'')]"
  using readStream_Position_End
          [of "''orders''" 10 "- 1" "\<lambda>t q. Inr ([], [])" Backward store0]
  by (simp add: store0_def createPostgresStreamStore_def queries_def)

theorem readStream_Position_End_counterexample:
  "queries (snd (readStream (- 1) (\<lambda>t q. Inr ([], [])) ''orders'' (- 1) 10 Backward store0)) =
     [Batch (Q_readStreamMessages ''orders'' 9007199254740991 11 False)
            (Q_readStreamInfo ''orders'')]
   \<and> Batch (Q_readStreamMessages ''orders'' 9223372036854775807 11 False)
            (Q_readStreamInfo ''orders'')
       \<notin> set (queries (snd (readStream (- 1) (\<lambda>t q. Inr ([], [])) ''orders'' (- 1) 10
                                Backward store0)))"
  by (simp add: readStream_def requiredString_def required_def assert_def Let_def
        MAX_SAFE_INTEGER_def store0_def createPostgresStreamStore_def queries_def emit_def)

theorem readStream_nextVersion_witness:
  "\<exists>r. fst (readStream (- 1)
              (\<lambda>t q. Inr ([example_row 0 ''7'', example_row 1 ''9'', example_row 2 ''12''],
                           [example_info 5 ''40'']))
              ''orders'' 0 2 Forward store0) = Inr r
       \<and> \<not> ReadStreamResult.isEnd r \<and> nextVersion r = 2
       \<and> ReadStreamResult.streamVersion r = 5"
  using readStream_nextVersion
          [of "''orders''" 2
              "\<lambda>t q. Inr ([example_row 0 ''7'', example_row 1 ''9'', example_row 2 ''12''],
                           [example_info 5 ''40''])"
              store0 0 "- 1" Forward
              "[example_row 0 ''7'', example_row 1 ''9'', example_row 2 ''12'']"
              "example_info 5 ''40''" "[]"]
  by (auto simp: example_row_def example_info_def mapMessageResult_def readStream_def
        mapReadStreamResult_def requiredString_def required_def assert_def Let_def)

subsection \<open>Reading all streams\<close>

lemma last_map_position:
  "rows \<noteq> [] \<Longrightarrow>
     StreamMessage.position (last (map mapMessageResult rows)) =
       message_row.position (last rows)"
  by (simp add: last_map mapMessageResult_def)

text \<open>
  Claim C7, as amended. On a page that is not empty, \<^verbatim>\<open>nextPosition\<close> is the
  decimal string of the last message's position plus one when reading forward, and of
  that position minus one, but not below zero, when reading backward. On an empty
  page \<^verbatim>\<open>isEnd\<close> is true, and \<^verbatim>\<open>nextPosition\<close> is
  \<^verbatim>\<open>"0"\<close> when reading backward; reading forward it is the position that was
  sent to the storage: the input, except that \<^verbatim>\<open>Position.End\<close> has been
  replaced by \<^verbatim>\<open>"9223372036854775807"\<close>.
\<close>

theorem readAllInternal_nextPosition:
  assumes "pool (length (trace s))
             (Q_readAllMessages (count + 1)
                (if toString p = toString_int Position_End then ''9223372036854775807''
                 else toString p)
                (direction = Forward)) = Inr rows"
  shows "(rows = [] \<longrightarrow>
            fst (readAllInternal Position_End pool p count direction s) =
              Inr \<lparr>ReadAllResult.isEnd = True,
                   ReadAllResult.messages = [],
                   nextPosition =
                     (if direction = Forward
                      then (if toString p = toString_int Position_End
                            then ''9223372036854775807'' else toString p)
                      else ''0'')\<rparr>)
         \<and> (rows \<noteq> [] \<and> 0 < count
              \<and> (\<forall>m \<in> set rows. BigInteger (message_row.position m) \<noteq> None) \<longrightarrow>
              (\<exists>r n. fst (readAllInternal Position_End pool p count direction s) = Inr r
                 \<and> ReadAllResult.messages r \<noteq> []
                 \<and> BigInteger (StreamMessage.position (last (ReadAllResult.messages r)))
                     = Some n
                 \<and> nextPosition r =
                     toString_int (if direction = Forward then n + 1 else max (n - 1) 0)
                 \<and> BigInteger (nextPosition r) =
                     Some (if direction = Forward then n + 1 else max (n - 1) 0)))"
proof (intro conjI impI)
  assume "rows = []"
  with assms show "fst (readAllInternal Position_End pool p count direction s) =
              Inr \<lparr>ReadAllResult.isEnd = True,
                   ReadAllResult.messages = [],
                   nextPosition =
                     (if direction = Forward
                      then (if toString p = toString_int Position_End
                            then ''9223372036854775807'' else toString p)
                      else ''0'')\<rparr>"
    by (cases direction; cases "toString p = toString_int Position_End")
       (simp_all add: readAllInternal_def Let_def MAX_BIG_VALUE_def)
next
  assume h: "rows \<noteq> [] \<and> 0 < count
              \<and> (\<forall>m \<in> set rows. BigInteger (message_row.position m) \<noteq> None)"
  define page where "page = (if int (length rows) = count + 1 then butlast rows else rows)"
  have page_ne: "page \<noteq> []"
  proof (cases "int (length rows) = count + 1")
    case True
    with h show ?thesis
      unfolding page_def by (cases rows rule: rev_cases) (auto simp: butlast_append)
  next
    case False
    with h show ?thesis unfolding page_def by simp
  qed
  have "set page \<subseteq> set rows"
    unfolding page_def by (auto dest: in_set_butlastD)
  with page_ne h have "BigInteger (message_row.position (last page)) \<noteq> None"
    by (meson last_in_set subsetD)
  then obtain n where n: "BigInteger (message_row.position (last page)) = Some n"
    by auto
  have pos: "StreamMessage.position (last (map mapMessageResult page)) =
               message_row.position (last page)"
    using page_ne by (rule last_map_position)
  have res: "fst (readAllInternal Position_End pool p count direction s) =
               Inr \<lparr>ReadAllResult.isEnd = (int (length rows) \<noteq> count + 1),
                    ReadAllResult.messages = map mapMessageResult page,
                    nextPosition =
                      (if direction = Forward then toString_int (n + 1)
                       else toString_int (max (n - 1) 0))\<rparr>"
    using assms h page_ne n pos
    by (cases direction; cases "toString p = toString_int Position_End";
        cases "int (length rows) = count + 1")
       (simp_all add: readAllInternal_def Let_def MAX_BIG_VALUE_def page_def
          map_butlast [symmetric])
  show "\<exists>r n. fst (readAllInternal Position_End pool p count direction s) = Inr r
                 \<and> ReadAllResult.messages r \<noteq> []
                 \<and> BigInteger (StreamMessage.position (last (ReadAllResult.messages r)))
                     = Some n
                 \<and> nextPosition r =
                     toString_int (if direction = Forward then n + 1 else max (n - 1) 0)
                 \<and> BigInteger (nextPosition r) =
                     Some (if direction = Forward then n + 1 else max (n - 1) 0)"
    using res page_ne n pos by (auto simp: BigInteger_toString_int)
qed

theorem readAllInternal_nextPosition_witness:
  "\<exists>r. fst (readAllInternal (- 1)
              (\<lambda>t q. Inr [example_row 0 ''7'', example_row 1 ''9'', example_row 0 ''12''])
              (PosString ''5'') 2 Forward store0) = Inr r
       \<and> nextPosition r = ''10'' \<and> \<not> ReadAllResult.isEnd r"
proof -
  have e: "toString_int 10 = ''10''" "toString_int (- 1) = ''-1''"
    by code_simp+
  show ?thesis
    using readAllInternal_nextPosition
            [of "\<lambda>t q. Inr [example_row 0 ''7'', example_row 1 ''9'', example_row 0 ''12'']"
                store0 2 "PosString ''5''" "- 1" Forward
                "[example_row 0 ''7'', example_row 1 ''9'', example_row 0 ''12'']"]
    by (simp add: e readAllInternal_def Let_def example_row_def mapMessageResult_def
          BigInteger_def digit_value_def)
qed

theorem readAllInternal_nextPosition_counterexample:
  "fst (readAllInternal (- 1) (\<lambda>t q. Inr []) (PosNumber (- 1)) 10 Forward store0) =
     Inr \<lparr>ReadAllResult.isEnd = True,
          ReadAllResult.messages = [],
          nextPosition = ''9223372036854775807''\<rparr>
   \<and> toString (PosNumber (- 1)) = ''-1''"
proof -
  have e: "toString_int (- 1) = ''-1''"
    by code_simp
  show ?thesis
    by (simp add: e readAllInternal_def Let_def MAX_BIG_VALUE_def)
qed

subsection \<open>The metadata stream\<close>

lemma toMetadataStreamId_rev1_differs:
  "toMetadataStreamId_rev1 sid \<noteq> toMetadataStreamId sid"
proof
  assume "toMetadataStreamId_rev1 sid = toMetadataStreamId sid"
  then have "length (toMetadataStreamId_rev1 sid) = length (toMetadataStreamId sid)"
    by simp
  then show False
    by (simp add: toMetadataStreamId_rev1_def toMetadataStreamId_def)
qed


subsection \<open>Classifying storage errors\<close>

lemma endsWith_both:
  assumes "endsWith s x" and "endsWith s y" and "length x \<le> length y"
  shows "endsWith y x"
proof -
  have x: "drop (length s - length x) s = x" and y: "drop (length s - length y) s = y"
    and ly: "length y \<le> length s"
    using assms by (simp_all add: endsWith_def)
  have "drop (length y - length x) y =
          drop (length y - length x) (drop (length s - length y) s)"
    by (simp only: y)
  also have "\<dots> = drop (length s - length x) s"
    using assms(3) ly by simp
  finally show ?thesis
    using assms(3) x by (simp add: endsWith_def)
qed

lemma duplicate_is_not_concurrency:
  assumes "isDuplicateMessageIdUniqueConstraintViolation err"
  shows "\<not> isConcurrencyUniqueConstraintViolation err"
proof -
  have a: "\<not> endsWith ''\"message_message_id_key\"'' ''\"stream_id_key\"''"
    by (simp add: endsWith_def)
  have b: "\<not> endsWith ''\"message_stream_id_internal_stream_version_unique\"''
                 ''\"message_message_id_key\"''"
    by (simp add: endsWith_def)
  show ?thesis
    using assms a b
      endsWith_both [of "message err" "''\"stream_id_key\"''" "''\"message_message_id_key\"''"]
      endsWith_both [of "message err" "''\"message_message_id_key\"''"
                        "''\"message_stream_id_internal_stream_version_unique\"''"]
    by (auto simp: isDuplicateMessageIdUniqueConstraintViolation_def
          isConcurrencyUniqueConstraintViolation_def)
qed

lemma ConcurrencyError_is_not_a_violation:
  "\<not> isConcurrencyUniqueConstraintViolation ConcurrencyError"
  "\<not> isDuplicateMessageIdUniqueConstraintViolation ConcurrencyError"
  by (simp_all add: isConcurrencyUniqueConstraintViolation_def
        isDuplicateMessageIdUniqueConstraintViolation_def endsWith_def)

lemma handle_sentinel:
  "handlePotentialConcurrencyError ConcurrencyError ev again = Fail ConcurrencyError"
  by (simp add: handlePotentialConcurrencyError_def ConcurrencyError_is_not_a_violation)

lemma handle_conflict_Any:
  "isConcurrencyUniqueConstraintViolation err \<Longrightarrow>
     handlePotentialConcurrencyError err (Num ExpectedVersion_Any) again = again err"
  by (simp add: handlePotentialConcurrencyError_def)

lemma handle_conflict_other:
  "isConcurrencyUniqueConstraintViolation err \<Longrightarrow> ev \<noteq> Num ExpectedVersion_Any \<Longrightarrow>
     handlePotentialConcurrencyError err ev again = Fail ConcurrencyError"
  by (simp add: handlePotentialConcurrencyError_def)

lemma handle_duplicate:
  "isDuplicateMessageIdUniqueConstraintViolation err \<Longrightarrow>
     handlePotentialConcurrencyError err ev again =
       Fail (DuplicateMessageError (extractUuidKeyFromConstraintViolationError err))"
  by (simp add: handlePotentialConcurrencyError_def duplicate_is_not_concurrency)

subsection \<open>One attempt of an append\<close>

lemma attempt_state:
  "trace (snd (retryableAppendToStream config pool sid ev msgs again s)) =
     trace s @ [Query (Q_append sid (toMetadataStreamId sid) ev (currentTime config s) msgs)]"
  by (simp add: retryableAppendToStream_def insertMessages_def Let_def
        split: sum.splits option.splits)

lemma attempt_length:
  "length (trace (snd (retryableAppendToStream config pool sid ev msgs again s))) =
     Suc (length (trace s))"
  by (simp add: attempt_state)

lemma attempt_queries:
  "length (queries (snd (retryableAppendToStream config pool sid ev msgs again s))) =
     Suc (length (queries s))"
  by (simp add: queries_def attempt_state)

lemma attempt_backoffs:
  "backoffs (snd (retryableAppendToStream config pool sid ev msgs again s)) = backoffs s"
  by (simp add: retryableAppendToStream_def insertMessages_def Let_def
        split: sum.splits option.splits)

lemma attempt_rejected:
  assumes "\<forall>q. pool (length (trace s)) q = Inl err"
  shows "fst (retryableAppendToStream config pool sid ev msgs again s) =
           Inl (handlePotentialConcurrencyError err ev again)"
  using assms by (simp add: retryableAppendToStream_def insertMessages_def Let_def)

lemma attempt_answered:
  assumes "\<forall>q. pool (length (trace s)) q = Inr row"
  shows "fst (retryableAppendToStream config pool sid ev msgs again s) =
           (if current_version row = ConcurrencyIssue then Inl (Fail ConcurrencyError)
            else Inr (current_position row, current_version row,
                      InsertResult.max_age row, InsertResult.max_count row))"
  using assms
  by (simp add: retryableAppendToStream_def insertMessages_def Let_def throwIfErrorCode_def
        handle_sentinel)

subsection \<open>The retry loop\<close>

lemma retry_loop_Again:
  "fst (fn s) = Inl (Again e) \<Longrightarrow>
     retry_loop opts k (Suc r) fn s =
       retry_loop opts (Suc k) r fn (wait opts (Suc k) (snd (fn s)))"
  by (cases "fn s") simp

lemma retry_loop_last_Again:
  "fst (fn s) = Inl (Again e) \<Longrightarrow> retry_loop opts k 0 fn s = (Inl e, snd (fn s))"
  by (cases "fn s") simp

lemma retry_loop_Fail:
  "fst (fn s) = Inl (Fail e) \<Longrightarrow> retry_loop opts k r fn s = (Inl e, snd (fn s))"
  by (cases "fn s"; cases r) simp_all

lemma retry_loop_Inr:
  "fst (fn s) = Inr v \<Longrightarrow> retry_loop opts k r fn s = (Inr v, snd (fn s))"
  by (cases "fn s"; cases r) simp_all

text \<open>The waits before the attempts number \<open>k + 1\<close> to \<open>k + n\<close>.\<close>

lemma waits_Suc:
  "(opts, Suc k) # map (Pair opts) [Suc (Suc k)..<Suc (Suc k + n)] =
     map (Pair opts) [Suc k..<Suc (k + Suc n)]"
  by (simp add: upt_conv_Cons)

text \<open>
  When the storage rejects \<open>n\<close> queries in a row with a concurrency violation, an
  append with \<^verbatim>\<open>ExpectedVersion.Any\<close> makes \<open>n\<close> attempts, waits after each
  of them, and goes on with \<open>n\<close> tries fewer.
\<close>

lemma retry_loop_conflicts:
  assumes "\<forall>i<n. \<forall>q. \<exists>err. pool (length (trace s) + i) q = Inl err
                         \<and> isConcurrencyUniqueConstraintViolation err"
    and "n \<le> r"
  shows "\<exists>s'. retry_loop opts k r
                (retryableAppendToStream config pool sid (Num ExpectedVersion_Any) msgs Again) s =
              retry_loop opts (k + n) (r - n)
                (retryableAppendToStream config pool sid (Num ExpectedVersion_Any) msgs Again) s'
            \<and> length (trace s') = length (trace s) + n
            \<and> length (queries s') = length (queries s) + n
            \<and> backoffs s' = backoffs s @ map (Pair opts) [Suc k..<Suc (k + n)]"
  using assms
proof (induction n arbitrary: s r k)
  case 0
  then show ?case by auto
next
  case (Suc n)
  let ?fn = "retryableAppendToStream config pool sid (Num ExpectedVersion_Any) msgs Again"
  let ?s1 = "wait opts (Suc k) (snd (?fn s))"
  from Suc.prems(2) obtain r' where r: "r = Suc r'" and nr: "n \<le> r'"
    by (cases r) auto
  from Suc.prems(1) have "\<forall>q. \<exists>err. pool (length (trace s)) q = Inl err
                         \<and> isConcurrencyUniqueConstraintViolation err"
    by (metis add.right_neutral zero_less_Suc)
  then obtain err where err: "pool (length (trace s))
       (Q_append sid (toMetadataStreamId sid) (Num ExpectedVersion_Any) (currentTime config s) msgs)
       = Inl err" "isConcurrencyUniqueConstraintViolation err"
    by blast
  have first: "fst (?fn s) = Inl (Again err)"
    using err
    by (simp add: retryableAppendToStream_def insertMessages_def Let_def handle_conflict_Any)
  have step: "retry_loop opts k r ?fn s = retry_loop opts (Suc k) r' ?fn ?s1"
    unfolding r using first by (rule retry_loop_Again)
  have later: "\<forall>i<n. \<forall>q. \<exists>err. pool (length (trace ?s1) + i) q = Inl err
                         \<and> isConcurrencyUniqueConstraintViolation err"
    using Suc.prems(1) by (simp add: attempt_length) (metis Suc_less_eq add_Suc_right)
  from Suc.IH [OF later nr, of "Suc k"] obtain s' where
    s': "retry_loop opts (Suc k) r' ?fn ?s1 = retry_loop opts (Suc k + n) (r' - n) ?fn s'"
        "length (trace s') = length (trace ?s1) + n"
        "length (queries s') = length (queries ?s1) + n"
        "backoffs s' = backoffs ?s1 @ map (Pair opts) [Suc (Suc k)..<Suc (Suc k + n)]"
    by blast
  have "backoffs s' = backoffs s @ map (Pair opts) [Suc k..<Suc (k + Suc n)]"
    using s'(4) waits_Suc [of opts k n] by (simp add: attempt_backoffs)
  then show ?case
    using step s'(1-3) r by (auto simp: attempt_length attempt_queries)
qed

subsection \<open>An append that passes its checks\<close>

lemma maybeScavenge_id [simp]: "maybeScavenge sid age cnt s = s"
  by (simp add: maybeScavenge_def)

lemma appendToStream_passed:
  assumes "appendToStream_invariants sid ev msgs = None" and "\<not> disposing s"
  shows "appendToStream config pool sid ev msgs s =
           (case retry_loop retryOpts 0 199
                   (retryableAppendToStream config pool sid ev msgs Again)
                   (emit LatchEnter s) of
              (Inl e, s') \<Rightarrow> (Inl e, emit LatchExit s')
            | (Inr (pos, ver, age, cnt), s') \<Rightarrow>
                (Inr \<lparr>streamPosition = pos, streamVersion = ver\<rparr>, emit LatchExit s'))"
  using assms
  by (simp add: appendToStream_def retry_def retryOpts_def split: prod.splits sum.splits)

text \<open>
  After \<open>n\<close> conflicts in a row, which only \<^verbatim>\<open>ExpectedVersion.Any\<close> lets
  pass, the append is at its attempt number \<open>n\<close> and has waited \<open>n\<close> times under
  \<open>retryOpts\<close>.
\<close>

lemma appendToStream_after_conflicts:
  assumes "appendToStream_invariants sid ev msgs = None" and "\<not> disposing s"
    and "n = 0 \<or> ev = Num ExpectedVersion_Any" and "n < 200"
    and "\<forall>i<n. \<forall>q. \<exists>err. pool (Suc (length (trace s)) + i) q = Inl err
                         \<and> isConcurrencyUniqueConstraintViolation err"
  shows "\<exists>s'. length (trace s') = Suc (length (trace s)) + n
            \<and> length (queries s') = length (queries s) + n
            \<and> backoffs s' = backoffs s @ map (Pair retryOpts) [1..<Suc n]
            \<and> appendToStream config pool sid ev msgs s =
                (case retry_loop retryOpts n (199 - n)
                        (retryableAppendToStream config pool sid ev msgs Again) s' of
                   (Inl e, s'') \<Rightarrow> (Inl e, emit LatchExit s'')
                 | (Inr (pos, ver, age, cnt), s'') \<Rightarrow>
                     (Inr \<lparr>streamPosition = pos, streamVersion = ver\<rparr>,
                      emit LatchExit s''))"
proof (cases "n = 0")
  case True
  show ?thesis
    using appendToStream_passed [OF assms(1,2), of config pool] True
    by (intro exI [of _ "emit LatchEnter s"]) simp
next
  case False
  with assms(3) have ev: "ev = Num ExpectedVersion_Any" by simp
  have c: "\<forall>i<n. \<forall>q. \<exists>err. pool (length (trace (emit LatchEnter s)) + i) q = Inl err
                         \<and> isConcurrencyUniqueConstraintViolation err"
    using assms(5) by simp
  have "n \<le> 199" using assms(4) by simp
  from retry_loop_conflicts [OF c this, of retryOpts 0 config sid msgs]
  obtain s' where
    "retry_loop retryOpts 0 199
       (retryableAppendToStream config pool sid (Num ExpectedVersion_Any) msgs Again)
       (emit LatchEnter s) =
     retry_loop retryOpts (0 + n) (199 - n)
       (retryableAppendToStream config pool sid (Num ExpectedVersion_Any) msgs Again) s'"
    "length (trace s') = length (trace (emit LatchEnter s)) + n"
    "length (queries s') = length (queries (emit LatchEnter s)) + n"
    "backoffs s' = backoffs (emit LatchEnter s) @ map (Pair retryOpts) [Suc 0..<Suc (0 + n)]"
    by blast
  then show ?thesis
    using appendToStream_passed [OF assms(1,2), of config pool] ev
    by (intro exI [of _ s']) simp
qed

lemma appendToStream_decided_Fail:
  assumes "appendToStream_invariants sid ev msgs = None" and "\<not> disposing s"
    and "n = 0 \<or> ev = Num ExpectedVersion_Any" and "n < 200"
    and "\<forall>i<n. \<forall>q. \<exists>err. pool (Suc (length (trace s)) + i) q = Inl err
                         \<and> isConcurrencyUniqueConstraintViolation err"
    and "\<And>s'. length (trace s') = Suc (length (trace s)) + n \<Longrightarrow>
           fst (retryableAppendToStream config pool sid ev msgs Again s') = Inl (Fail e)"
  shows "fst (appendToStream config pool sid ev msgs s) = Inl e
         \<and> length (queries (snd (appendToStream config pool sid ev msgs s))) =
             length (queries s) + n + 1
         \<and> backoffs (snd (appendToStream config pool sid ev msgs s)) =
             backoffs s @ map (Pair retryOpts) [1..<Suc n]"
proof -
  from appendToStream_after_conflicts [OF assms(1-5), of config]
  obtain s' where s': "length (trace s') = Suc (length (trace s)) + n"
      "length (queries s') = length (queries s) + n"
      "backoffs s' = backoffs s @ map (Pair retryOpts) [1..<Suc n]"
      "appendToStream config pool sid ev msgs s =
         (case retry_loop retryOpts n (199 - n)
                 (retryableAppendToStream config pool sid ev msgs Again) s' of
            (Inl e, s'') \<Rightarrow> (Inl e, emit LatchExit s'')
          | (Inr (pos, ver, age, cnt), s'') \<Rightarrow>
              (Inr \<lparr>streamPosition = pos, streamVersion = ver\<rparr>, emit LatchExit s''))"
    by blast
  have "retry_loop retryOpts n (199 - n)
          (retryableAppendToStream config pool sid ev msgs Again) s' =
          (Inl e, snd (retryableAppendToStream config pool sid ev msgs Again s'))"
    using assms(6) [OF s'(1)] by (rule retry_loop_Fail)
  then show ?thesis
    using s' by (simp add: attempt_queries attempt_backoffs)
qed

lemma appendToStream_decided_Inr:
  assumes "appendToStream_invariants sid ev msgs = None" and "\<not> disposing s"
    and "n = 0 \<or> ev = Num ExpectedVersion_Any" and "n < 200"
    and "\<forall>i<n. \<forall>q. \<exists>err. pool (Suc (length (trace s)) + i) q = Inl err
                         \<and> isConcurrencyUniqueConstraintViolation err"
    and "\<And>s'. length (trace s') = Suc (length (trace s)) + n \<Longrightarrow>
           fst (retryableAppendToStream config pool sid ev msgs Again s') =
             Inr (pos, ver, age, cnt)"
  shows "fst (appendToStream config pool sid ev msgs s) =
           Inr \<lparr>streamPosition = pos, streamVersion = ver\<rparr>
         \<and> length (queries (snd (appendToStream config pool sid ev msgs s))) =
             length (queries s) + n + 1
         \<and> backoffs (snd (appendToStream config pool sid ev msgs s)) =
             backoffs s @ map (Pair retryOpts) [1..<Suc n]"
proof -
  from appendToStream_after_conflicts [OF assms(1-5), of config]
  obtain s' where s': "length (trace s') = Suc (length (trace s)) + n"
      "length (queries s') = length (queries s) + n"
      "backoffs s' = backoffs s @ map (Pair retryOpts) [1..<Suc n]"
      "appendToStream config pool sid ev msgs s =
         (case retry_loop retryOpts n (199 - n)
                 (retryableAppendToStream config pool sid ev msgs Again) s' of
            (Inl e, s'') \<Rightarrow> (Inl e, emit LatchExit s'')
          | (Inr (pos, ver, age, cnt), s'') \<Rightarrow>
              (Inr \<lparr>streamPosition = pos, streamVersion = ver\<rparr>, emit LatchExit s''))"
    by blast
  have "retry_loop retryOpts n (199 - n)
          (retryableAppendToStream config pool sid ev msgs Again) s' =
          (Inr (pos, ver, age, cnt),
           snd (retryableAppendToStream config pool sid ev msgs Again s'))"
    using assms(6) [OF s'(1)] by (rule retry_loop_Inr)
  then show ?thesis
    using s' by (simp add: attempt_queries attempt_backoffs)
qed

lemma appendToStream_exhausted:
  assumes "appendToStream_invariants sid (Num ExpectedVersion_Any) msgs = None"
    and "\<not> disposing s"
    and "\<forall>i<200. \<forall>q. \<exists>err. pool (Suc (length (trace s)) + i) q = Inl err
                         \<and> isConcurrencyUniqueConstraintViolation err"
  shows "(\<exists>e. fst (appendToStream config pool sid (Num ExpectedVersion_Any) msgs s) = Inl e)
         \<and> length (queries (snd (appendToStream config pool sid (Num ExpectedVersion_Any)
                                     msgs s))) =
             length (queries s) + 200
         \<and> backoffs (snd (appendToStream config pool sid (Num ExpectedVersion_Any) msgs s)) =
             backoffs s @ map (Pair retryOpts) [1..<200]"
proof -
  let ?fn = "retryableAppendToStream config pool sid (Num ExpectedVersion_Any) msgs Again"
  have c: "\<forall>i<199. \<forall>q. \<exists>err. pool (Suc (length (trace s)) + i) q = Inl err
                         \<and> isConcurrencyUniqueConstraintViolation err"
    using assms(3) by simp
  from appendToStream_after_conflicts [OF assms(1,2) _ _ c, of config]
  obtain s' where s': "length (trace s') = Suc (length (trace s)) + 199"
      "length (queries s') = length (queries s) + 199"
      "backoffs s' = backoffs s @ map (Pair retryOpts) [1..<Suc 199]"
      "appendToStream config pool sid (Num ExpectedVersion_Any) msgs s =
         (case retry_loop retryOpts 199 0 ?fn s' of
            (Inl e, s'') \<Rightarrow> (Inl e, emit LatchExit s'')
          | (Inr (pos, ver, age, cnt), s'') \<Rightarrow>
              (Inr \<lparr>streamPosition = pos, streamVersion = ver\<rparr>, emit LatchExit s''))"
    by auto
  have "(199::nat) < 200" by simp
  with assms(3) have "\<forall>q. \<exists>err. pool (Suc (length (trace s)) + 199) q = Inl err
                         \<and> isConcurrencyUniqueConstraintViolation err"
    by blast
  with s'(1) obtain err where err:
    "pool (length (trace s'))
       (Q_append sid (toMetadataStreamId sid) (Num ExpectedVersion_Any)
          (currentTime config s') msgs) = Inl err"
    "isConcurrencyUniqueConstraintViolation err"
    by metis
  have "fst (?fn s') = Inl (Again err)"
    using err
    by (simp add: retryableAppendToStream_def insertMessages_def Let_def handle_conflict_Any)
  then have "retry_loop retryOpts 199 0 ?fn s' = (Inl err, snd (?fn s'))"
    by (rule retry_loop_last_Again)
  then show ?thesis
    using s' by (simp add: attempt_queries attempt_backoffs)
qed

subsection \<open>The key of a duplicate\<close>

lemma uuid_chars:
  assumes "is_uuid u" and "c \<in> set u"
  shows "c = CHR ''-'' \<or> is_hex c"
proof -
  from assms(2) obtain i where i: "i < length u" "u ! i = c"
    by (auto simp: in_set_conv_nth)
  from assms(1) have
    "list_all2 (\<lambda>p c. if p = CHR ''-'' then c = CHR ''-'' else is_hex c)
       ''xxxxxxxx-xxxx-xxxx-xxxx-xxxxxxxxxxxx'' u"
    by (simp add: is_uuid_def)
  from list_all2_nthD2 [OF this i(1)] i(2) show ?thesis
    by (auto split: if_splits)
qed

lemma uuid_chars_group:
  assumes "is_uuid u" and "c \<in> set u"
  shows "c \<noteq> CHR '')'' \<and> \<not> line_terminator c"
  using uuid_chars [OF assms] by (auto simp: is_hex_def line_terminator_def)

lemma match_here_group:
  assumes "\<forall>c \<in> set u. c \<noteq> CHR '')'' \<and> \<not> line_terminator c"
  shows "match_here (''=('' @ u @ '')'' @ post) = Some u"
proof -
  have "takeWhile (\<lambda>c. c \<noteq> CHR '')'' \<and> \<not> line_terminator c) (u @ '')'' @ post) = u"
    using assms by (simp add: takeWhile_append2)
  then show ?thesis
    by (simp add: match_here_def startsWith_def)
qed

lemma regex_exec_group:
  assumes "CHR ''='' \<notin> set pre"
    and "\<forall>c \<in> set u. c \<noteq> CHR '')'' \<and> \<not> line_terminator c"
  shows "regex_exec (pre @ ''=('' @ u @ '')'' @ post) = Some u"
  using assms(1)
proof (induction pre)
  case Nil
  show ?case
    using match_here_group [OF assms(2), of post] by simp
next
  case (Cons c pre)
  then have "match_here (c # pre @ ''=('' @ u @ '')'' @ post) = None"
    by (auto simp: match_here_def startsWith_def)
  with Cons show ?case by simp
qed

lemma extract_uuid:
  assumes "detail err = Some (pre @ ''=('' @ u @ '')'' @ post)"
    and "CHR ''='' \<notin> set pre" and "is_uuid u"
  shows "extractUuidKeyFromConstraintViolationError err = u"
proof -
  have "\<forall>c \<in> set u. c \<noteq> CHR '')'' \<and> \<not> line_terminator c"
    using uuid_chars_group [OF assms(3)] by blast
  from regex_exec_group [OF assms(2) this, of post] assms(1) show ?thesis
    by (simp add: extractUuidKeyFromConstraintViolationError_def)
qed

subsection \<open>The checks of an append\<close>

lemma first_error_Cons:
  "first_error (x # xs) = (case x of None \<Rightarrow> first_error xs | Some e \<Rightarrow> Some e)"
  by (cases x) simp_all

lemma not_is_uuid_Nil: "\<not> is_uuid []"
  by (simp add: is_uuid_def)

text \<open>What the checks on a message demand, whatever its index.\<close>

lemma message_invariants_None:
  "message_invariants i m = None \<longleftrightarrow>
     (\<exists>u. get m ''messageId'' = Str u \<and> is_uuid u)
     \<and> get m ''type'' \<notin> {Undefined, Null, Str []}
     \<and> get m ''data'' \<notin> {Undefined, Null, Str []}"
  by (cases "get m ''messageId''")
     (auto simp: message_invariants_def required_def uuid_def not_is_uuid_Nil)

lemma forEach_invariants_None:
  "forEach_invariants i ms = None \<longleftrightarrow>
     (\<forall>m \<in> set ms.
        (\<exists>u. get m ''messageId'' = Str u \<and> is_uuid u)
        \<and> get m ''type'' \<notin> {Undefined, Null, Str []}
        \<and> get m ''data'' \<notin> {Undefined, Null, Str []})"
proof (induction ms arbitrary: i)
  case Nil
  show ?case by simp
next
  case (Cons m ms)
  show ?case
  proof (cases "message_invariants i m")
    case None
    then show ?thesis
      using Cons.IH [of "Suc i"] message_invariants_None [of i m] by simp
  next
    case (Some e)
    then show ?thesis
      using message_invariants_None [of i m] by auto
  qed
qed

lemma appendToStream_invariants_None:
  "appendToStream_invariants sid ev msgs = None \<longleftrightarrow>
     sid \<noteq> [] \<and> \<not> startsWith sid ''$'' \<and> ev \<notin> {Undefined, Null, Str []}
     \<and> (\<forall>m \<in> set msgs.
           (\<exists>u. get m ''messageId'' = Str u \<and> is_uuid u)
           \<and> get m ''type'' \<notin> {Undefined, Null, Str []}
           \<and> get m ''data'' \<notin> {Undefined, Null, Str []})"
  unfolding forEach_invariants_None [of 0 msgs, symmetric]
  by (auto simp: appendToStream_invariants_def requiredString_def notOperationalStream_def
        required_def first_error_Cons split: option.splits)

lemma message_invariants_error:
  "message_invariants i m = Some e \<Longrightarrow> \<exists>msg. e = InvalidParameterError msg"
  by (cases "get m ''messageId''")
     (auto simp: message_invariants_def required_def uuid_def split: if_splits)

lemma forEach_invariants_error:
  "forEach_invariants i ms = Some e \<Longrightarrow> \<exists>msg. e = InvalidParameterError msg"
  by (induction ms arbitrary: i) (auto split: option.splits dest: message_invariants_error)

lemma appendToStream_invariants_error:
  "appendToStream_invariants sid ev msgs = Some e \<Longrightarrow> \<exists>msg. e = InvalidParameterError msg"
  by (auto simp: appendToStream_invariants_def requiredString_def notOperationalStream_def
        required_def first_error_Cons split: if_splits option.splits
        dest: forEach_invariants_error)

text \<open>
  Claim C4. A check of \<^verbatim>\<open>appendToStream\<close> that fails is thrown as an
  \<^verbatim>\<open>InvalidParameterError\<close> and the store is left as it was: no latch, no
  query. The checks fail when the stream id is empty or begins with
  \<^verbatim>\<open>$\<close>, when the expected version is \<^verbatim>\<open>undefined\<close> or
  \<^verbatim>\<open>null\<close>, and when a message has no UUID \<^verbatim>\<open>messageId\<close>, an
  empty or missing \<^verbatim>\<open>type\<close>, or \<^verbatim>\<open>data\<close> that is
  \<^verbatim>\<open>undefined\<close> or \<^verbatim>\<open>null\<close>.
\<close>

theorem append_invalid_parameter:
  "(appendToStream_invariants sid ev msgs \<noteq> None \<longrightarrow>
      (\<exists>msg. appendToStream config pool sid ev msgs s = (Inl (InvalidParameterError msg), s)))
   \<and> (sid = [] \<or> startsWith sid ''$'' \<or> ev = Undefined \<or> ev = Null
        \<or> (\<exists>m \<in> set msgs.
              (\<forall>u. get m ''messageId'' = Str u \<longrightarrow> \<not> is_uuid u)
              \<or> get m ''type'' \<in> {Undefined, Null, Str []}
              \<or> get m ''data'' \<in> {Undefined, Null})
       \<longrightarrow> appendToStream_invariants sid ev msgs \<noteq> None)"
proof (intro conjI impI)
  assume "appendToStream_invariants sid ev msgs \<noteq> None"
  then obtain e where e: "appendToStream_invariants sid ev msgs = Some e"
    by auto
  then obtain msg where "e = InvalidParameterError msg"
    using appendToStream_invariants_error by blast
  with e show "\<exists>msg. appendToStream config pool sid ev msgs s =
                 (Inl (InvalidParameterError msg), s)"
    by (simp add: appendToStream_def)
next
  assume "sid = [] \<or> startsWith sid ''$'' \<or> ev = Undefined \<or> ev = Null
        \<or> (\<exists>m \<in> set msgs.
              (\<forall>u. get m ''messageId'' = Str u \<longrightarrow> \<not> is_uuid u)
              \<or> get m ''type'' \<in> {Undefined, Null, Str []}
              \<or> get m ''data'' \<in> {Undefined, Null})"
  then show "appendToStream_invariants sid ev msgs \<noteq> None"
    unfolding appendToStream_invariants_None by blast
qed

theorem append_invalid_parameter_witness:
  "(\<exists>msg. appendToStream config0 (\<lambda>t q. Inr example_insert) ''$lol'' (Num (- 2)) [] store0 =
            (Inl (InvalidParameterError msg), store0))
   \<and> (\<exists>msg. appendToStream config0 (\<lambda>t q. Inr example_insert) ''orders'' (Num (- 2))
              [[]] store0 =
            (Inl (InvalidParameterError msg), store0))"
  using append_invalid_parameter
          [of "''$lol''" "Num (- 2)" "[]" config0 "\<lambda>t q. Inr example_insert" store0]
        append_invalid_parameter
          [of "''orders''" "Num (- 2)" "[[]]" config0 "\<lambda>t q. Inr example_insert" store0]
  by (simp add: startsWith_def get_def)

lemma attempt_conflict:
  assumes "\<forall>q. \<exists>err. pool (length (trace s)) q = Inl err
                   \<and> isConcurrencyUniqueConstraintViolation err"
    and "ev \<noteq> Num ExpectedVersion_Any"
  shows "fst (retryableAppendToStream config pool sid ev msgs Again s) =
           Inl (Fail ConcurrencyError)"
proof -
  from assms(1) obtain err where
    "pool (length (trace s))
       (Q_append sid (toMetadataStreamId sid) ev (currentTime config s) msgs) = Inl err"
    "isConcurrencyUniqueConstraintViolation err"
    by blast
  then show ?thesis
    using assms(2)
    by (simp add: retryableAppendToStream_def insertMessages_def Let_def
          handle_conflict_other)
qed

lemma attempt_sentinel:
  assumes "\<forall>q. \<exists>row. pool (length (trace s)) q = Inr row
                   \<and> current_version row = ConcurrencyIssue"
  shows "fst (retryableAppendToStream config pool sid ev msgs Again s) =
           Inl (Fail ConcurrencyError)"
proof -
  from assms obtain row where
    "pool (length (trace s))
       (Q_append sid (toMetadataStreamId sid) ev (currentTime config s) msgs) = Inr row"
    "current_version row = ConcurrencyIssue"
    by blast
  then show ?thesis
    by (simp add: retryableAppendToStream_def insertMessages_def Let_def
          throwIfErrorCode_def handle_sentinel)
qed

lemma delay_retryOpts: "0 \<le> delay retryOpts k \<and> delay retryOpts k \<le> 50"
  by (simp add: delay_def retryOpts_def)

text \<open>
  Claim C2, as amended. An append is retried with the options factor 1.05, 200 tries,
  minimum delay 0 and maximum delay 50: each wait between two attempts is made under
  exactly these options, and lasts between 0 and 50 milliseconds. When the storage
  rejects an attempt with a unique violation of \<^verbatim>\<open>stream_id_key\<close> or of
  \<^verbatim>\<open>message_stream_id_internal_stream_version_unique\<close> and the expected
  version is \<^verbatim>\<open>ExpectedVersion.Any\<close>, a wait and another attempt follow:
  after \<open>n\<close> such conflicts, \<open>n < 200\<close>, and \<open>n\<close> waits, the answer to attempt
  \<open>n + 1\<close> is the result, and 200 conflicts in a row end the append after 200
  queries and 199 waits. With any other expected version the first such conflict
  fails with \<^verbatim>\<open>ConcurrencyError\<close> after one query and no wait. The sentinel
  \<^verbatim>\<open>current_version = -9\<close> fails with \<^verbatim>\<open>ConcurrencyError\<close>
  whatever the expected version is, as the first answer or after retried conflicts:
  no wait and no query follow it.
\<close>

theorem append_retry_policy:
  assumes "appendToStream_invariants sid ev msgs = None" and "\<not> disposing s"
  shows "retryOpts = \<lparr>factor = 1.05, tries = 200, minTimeout = 0, maxTimeout = 50\<rparr>
    \<and> (\<forall>k. 0 \<le> delay \<lparr>factor = 1.05, tries = 200, minTimeout = 0, maxTimeout = 50\<rparr> k
            \<and> delay \<lparr>factor = 1.05, tries = 200, minTimeout = 0, maxTimeout = 50\<rparr> k \<le> 50)
    \<and> (ev = Num ExpectedVersion_Any \<and> n < 200
        \<and> (\<forall>i<n. \<forall>q. \<exists>err. pool (Suc (length (trace s)) + i) q = Inl err
                         \<and> isConcurrencyUniqueConstraintViolation err)
        \<and> (\<forall>q. pool (Suc (length (trace s)) + n) q = Inr row)
        \<and> current_version row \<noteq> ConcurrencyIssue
       \<longrightarrow> fst (appendToStream config pool sid ev msgs s) =
             Inr \<lparr>streamPosition = current_position row,
                  streamVersion = current_version row\<rparr>
           \<and> length (queries (snd (appendToStream config pool sid ev msgs s))) =
               length (queries s) + n + 1
           \<and> backoffs (snd (appendToStream config pool sid ev msgs s)) =
               backoffs s @
                 map (Pair \<lparr>factor = 1.05, tries = 200, minTimeout = 0, maxTimeout = 50\<rparr>)
                   [1..<Suc n])
    \<and> (ev = Num ExpectedVersion_Any
        \<and> (\<forall>i<200. \<forall>q. \<exists>err. pool (Suc (length (trace s)) + i) q = Inl err
                         \<and> isConcurrencyUniqueConstraintViolation err)
       \<longrightarrow> (\<exists>e. fst (appendToStream config pool sid ev msgs s) = Inl e)
           \<and> length (queries (snd (appendToStream config pool sid ev msgs s))) =
               length (queries s) + 200
           \<and> backoffs (snd (appendToStream config pool sid ev msgs s)) =
               backoffs s @
                 map (Pair \<lparr>factor = 1.05, tries = 200, minTimeout = 0, maxTimeout = 50\<rparr>)
                   [1..<200])
    \<and> (ev \<noteq> Num ExpectedVersion_Any
        \<and> (\<forall>q. \<exists>err. pool (Suc (length (trace s))) q = Inl err
                  \<and> isConcurrencyUniqueConstraintViolation err)
       \<longrightarrow> fst (appendToStream config pool sid ev msgs s) = Inl ConcurrencyError
           \<and> length (queries (snd (appendToStream config pool sid ev msgs s))) =
               length (queries s) + 1
           \<and> backoffs (snd (appendToStream config pool sid ev msgs s)) = backoffs s)
    \<and> ((m = 0 \<or> ev = Num ExpectedVersion_Any) \<and> m < 200
        \<and> (\<forall>i<m. \<forall>q. \<exists>err. pool (Suc (length (trace s)) + i) q = Inl err
                         \<and> isConcurrencyUniqueConstraintViolation err)
        \<and> (\<forall>q. \<exists>r. pool (Suc (length (trace s)) + m) q = Inr r
                \<and> current_version r = ConcurrencyIssue)
       \<longrightarrow> fst (appendToStream config pool sid ev msgs s) = Inl ConcurrencyError
           \<and> length (queries (snd (appendToStream config pool sid ev msgs s))) =
               length (queries s) + m + 1
           \<and> backoffs (snd (appendToStream config pool sid ev msgs s)) =
               backoffs s @
                 map (Pair \<lparr>factor = 1.05, tries = 200, minTimeout = 0, maxTimeout = 50\<rparr>)
                   [1..<Suc m])"
    (is "?A \<and> ?A' \<and> (?HB \<longrightarrow> ?CB) \<and> (?HC \<longrightarrow> ?CC) \<and> (?HD \<longrightarrow> ?CD) \<and> (?HE \<longrightarrow> ?CE)")
proof -
  have A: ?A
    by (simp add: retryOpts_def)
  have A': ?A'
    using delay_retryOpts A by simp
  have B: "?HB \<longrightarrow> ?CB"
  proof
    assume h: ?HB
    have "fst (retryableAppendToStream config pool sid ev msgs Again s') =
            Inr (current_position row, current_version row,
                 InsertResult.max_age row, InsertResult.max_count row)"
      if "length (trace s') = Suc (length (trace s)) + n" for s'
      using h that attempt_answered [of pool s' row config sid ev msgs Again] by simp
    from appendToStream_decided_Inr [where n = n, OF assms _ _ _ this] h A
    show ?CB by simp
  qed
  have C: "?HC \<longrightarrow> ?CC"
  proof
    assume h: ?HC
    with appendToStream_exhausted [of sid msgs s pool config] assms A
    show ?CC by simp
  qed
  have D: "?HD \<longrightarrow> ?CD"
  proof
    assume h: ?HD
    have "fst (retryableAppendToStream config pool sid ev msgs Again s') =
            Inl (Fail ConcurrencyError)"
      if "length (trace s') = Suc (length (trace s)) + 0" for s'
      using h that attempt_conflict [of pool s' ev config sid msgs] by simp
    from appendToStream_decided_Fail [where n = 0, OF assms _ _ _ this]
    show ?CD by simp
  qed
  have E: "?HE \<longrightarrow> ?CE"
  proof
    assume h: ?HE
    have "fst (retryableAppendToStream config pool sid ev msgs Again s') =
            Inl (Fail ConcurrencyError)"
      if "length (trace s') = Suc (length (trace s)) + m" for s'
      using h that attempt_sentinel [of pool s' config sid ev msgs] by simp
    from appendToStream_decided_Fail [where n = m, OF assms _ _ _ this] h A
    show ?CE by simp
  qed
  from A A' B C D E show ?thesis
    by (intro conjI)
qed

text \<open>
  Claim C5. A unique violation of \<^verbatim>\<open>message_message_id_key\<close> ends the
  append at once, whatever the expected version and however many conflicts were
  retried before it: the error is a \<^verbatim>\<open>DuplicateMessageError\<close> whose id is
  the group of the first match of \<^verbatim>\<open>=\((.*?)\)\<close> in the driver error's
  detail, and no query follows. Where the detail reads \<^verbatim>\<open>...=(uuid)...\<close>
  with no \<^verbatim>\<open>=\<close> before it, that id is the UUID.
\<close>

theorem append_duplicate_message:
  assumes "appendToStream_invariants sid ev msgs = None" and "\<not> disposing s"
    and "n = 0 \<or> ev = Num ExpectedVersion_Any" and "n < 200"
    and "\<forall>i<n. \<forall>q. \<exists>err. pool (Suc (length (trace s)) + i) q = Inl err
                         \<and> isConcurrencyUniqueConstraintViolation err"
    and "\<forall>q. pool (Suc (length (trace s)) + n) q = Inl err"
    and "isDuplicateMessageIdUniqueConstraintViolation err"
  shows "fst (appendToStream config pool sid ev msgs s) =
           Inl (DuplicateMessageError (extractUuidKeyFromConstraintViolationError err))
         \<and> length (queries (snd (appendToStream config pool sid ev msgs s))) =
             length (queries s) + n + 1
         \<and> (\<forall>pre u post.
               detail err = Some (pre @ ''=('' @ u @ '')'' @ post)
               \<and> CHR ''='' \<notin> set pre \<and> is_uuid u
               \<longrightarrow> extractUuidKeyFromConstraintViolationError err = u)"
proof -
  have "fst (retryableAppendToStream config pool sid ev msgs Again s') =
          Inl (Fail (DuplicateMessageError (extractUuidKeyFromConstraintViolationError err)))"
    if "length (trace s') = Suc (length (trace s)) + n" for s'
    using assms(6,7) that attempt_rejected [of pool s' err config sid ev msgs Again]
    by (simp add: handle_duplicate)
  from appendToStream_decided_Fail [OF assms(1-5) this]
  have "fst (appendToStream config pool sid ev msgs s) =
           Inl (DuplicateMessageError (extractUuidKeyFromConstraintViolationError err))
         \<and> length (queries (snd (appendToStream config pool sid ev msgs s))) =
             length (queries s) + n + 1"
    by simp
  then show ?thesis
    using extract_uuid [of err] by blast
qed

subsection \<open>Concrete appends\<close>

lemma example_passes:
  "appendToStream_invariants ''orders'' (Num v) [example_message] = None"
  by (simp add: appendToStream_invariants_None startsWith_def example_message_def get_def
        is_uuid_def is_hex_def)

lemma conflict_error_is_conflict: "isConcurrencyUniqueConstraintViolation conflict_error"
  by (simp add: isConcurrencyUniqueConstraintViolation_def conflict_error_def endsWith_def)

lemma duplicate_error_is_duplicate:
  "isDuplicateMessageIdUniqueConstraintViolation duplicate_error"
  by (simp add: isDuplicateMessageIdUniqueConstraintViolation_def duplicate_error_def
        endsWith_def)

lemma store0_simps [simp]:
  "trace store0 = []" "\<not> disposing store0" "queries store0 = []"
  "notifier store0 = None" "subscriptions store0 = []" "backoffs store0 = []"
  by (simp_all add: store0_def createPostgresStreamStore_def queries_def)

theorem append_retry_policy_witness:
  "fst (appendToStream config0 (conflicts_then 3 (Inr example_insert)) ''orders''
          (Num (- 2)) [example_message] store0) =
     Inr \<lparr>streamPosition = ''8'', streamVersion = 1\<rparr>
   \<and> length (queries (snd (appendToStream config0 (conflicts_then 3 (Inr example_insert))
                              ''orders'' (Num (- 2)) [example_message] store0))) = 4
   \<and> backoffs (snd (appendToStream config0 (conflicts_then 3 (Inr example_insert))
                      ''orders'' (Num (- 2)) [example_message] store0)) =
       [(\<lparr>factor = 1.05, tries = 200, minTimeout = 0, maxTimeout = 50\<rparr>, 1),
        (\<lparr>factor = 1.05, tries = 200, minTimeout = 0, maxTimeout = 50\<rparr>, 2),
        (\<lparr>factor = 1.05, tries = 200, minTimeout = 0, maxTimeout = 50\<rparr>, 3)]
   \<and> fst (appendToStream config0 (conflicts_then 3 (Inr example_insert)) ''orders''
            (Num 0) [example_message] store0) = Inl ConcurrencyError
   \<and> length (queries (snd (appendToStream config0 (conflicts_then 3 (Inr example_insert))
                              ''orders'' (Num 0) [example_message] store0))) = 1
   \<and> backoffs (snd (appendToStream config0 (conflicts_then 3 (Inr example_insert))
                      ''orders'' (Num 0) [example_message] store0)) = []
   \<and> fst (appendToStream config0
            (conflicts_then 2 (Inr (example_insert\<lparr>current_version := - 9\<rparr>))) ''orders''
            (Num (- 2)) [example_message] store0) = Inl ConcurrencyError
   \<and> length (queries (snd (appendToStream config0
            (conflicts_then 2 (Inr (example_insert\<lparr>current_version := - 9\<rparr>))) ''orders''
            (Num (- 2)) [example_message] store0))) = 3"
proof -
  have u: "[Suc 0..<4] = [1, 2, 3]" "[Suc 0..<3] = [1, 2]"
    by (simp_all add: upt_conv_Cons)
  show ?thesis
    using append_retry_policy
            [of "''orders''" "Num (- 2)" "[example_message]" store0 3
                "conflicts_then 3 (Inr example_insert)" example_insert config0 0]
          append_retry_policy
            [of "''orders''" "Num 0" "[example_message]" store0 3
                "conflicts_then 3 (Inr example_insert)" example_insert config0 0]
          append_retry_policy
            [of "''orders''" "Num (- 2)" "[example_message]" store0 0
                "conflicts_then 2 (Inr (example_insert\<lparr>current_version := - 9\<rparr>))"
                example_insert config0 2]
    by (simp add: u example_passes conflicts_then_def conflict_error_is_conflict
          ExpectedVersion_Any_def ConcurrencyIssue_def example_insert_def)
qed

theorem append_retry_policy_counterexample:
  "fst (appendToStream config0 (\<lambda>t q. Inr (example_insert\<lparr>current_version := - 9\<rparr>))
          ''orders'' (Num ExpectedVersion_Any) [example_message] store0) =
     Inl ConcurrencyError
   \<and> length (queries (snd (appendToStream config0
                              (\<lambda>t q. Inr (example_insert\<lparr>current_version := - 9\<rparr>))
                              ''orders'' (Num ExpectedVersion_Any) [example_message]
                              store0))) = 1"
proof -
  let ?pool = "\<lambda>(t::nat) (q::query). (Inr (example_insert\<lparr>current_version := - 9\<rparr>)
                  :: error + InsertResult)"
  have "fst (retryableAppendToStream config0 ?pool ''orders'' (Num ExpectedVersion_Any)
               [example_message] Again s') = Inl (Fail ConcurrencyError)" for s'
    by (rule attempt_sentinel) (simp add: ConcurrencyIssue_def)
  from appendToStream_decided_Fail
         [where n = 0 and s = store0, OF example_passes _ _ _ _ this]
  show ?thesis
    by (simp add: ExpectedVersion_Any_def)
qed

theorem append_duplicate_message_witness:
  "fst (appendToStream config0 (conflicts_then 2 (Inl duplicate_error)) ''orders''
          (Num (- 2)) [example_message] store0) =
     Inl (DuplicateMessageError ''123e4567-e89b-12d3-a456-426614174000'')
   \<and> length (queries (snd (appendToStream config0 (conflicts_then 2 (Inl duplicate_error))
                              ''orders'' (Num (- 2)) [example_message] store0))) = 3
   \<and> fst (appendToStream config0 (conflicts_then 0 (Inl duplicate_error)) ''orders''
            (Num 5) [example_message] store0) =
     Inl (DuplicateMessageError ''123e4567-e89b-12d3-a456-426614174000'')
   \<and> length (queries (snd (appendToStream config0 (conflicts_then 0 (Inl duplicate_error))
                              ''orders'' (Num 5) [example_message] store0))) = 1"
proof -
  have e: "extractUuidKeyFromConstraintViolationError duplicate_error =
             ''123e4567-e89b-12d3-a456-426614174000''"
    by (simp add: extractUuidKeyFromConstraintViolationError_def duplicate_error_def
          match_here_def startsWith_def line_terminator_def)
  show ?thesis
    using append_duplicate_message
            [of "''orders''" "Num (- 2)" "[example_message]" store0 2
                "conflicts_then 2 (Inl duplicate_error)" duplicate_error config0]
          append_duplicate_message
            [of "''orders''" "Num 5" "[example_message]" store0 0
                "conflicts_then 0 (Inl duplicate_error)" duplicate_error config0]
    by (simp add: e example_passes conflicts_then_def conflict_error_is_conflict
          duplicate_error_is_duplicate ExpectedVersion_Any_def)
qed

subsection \<open>Writing while the store is being disposed\<close>

lemma store_disposing_simps [simp]:
  "trace store_disposing = []" "disposing store_disposing" "queries store_disposing = []"
  by (simp_all add: store_disposing_def queries_def)

lemma appendToStream_dispose_gate:
  assumes "appendToStream_invariants sid ev msgs = None" and "disposing s"
  shows "appendToStream config pool sid ev msgs s =
           (Inl (DisposedError
                   ''The stream store has been disposed and is not accepting writes.''), s)"
  using assms by (simp add: appendToStream_def)

lemma deleteMessage_trace:
  "trace (snd (deleteMessage pool sid mid s)) =
     trace s @ [LatchEnter, Query (Q_deleteMessages sid [mid]), LatchExit]"
  by (simp add: deleteMessage_def deleteMessages_def Let_def split: sum.splits)

text \<open>
  Claim C1, at a store whose \<^verbatim>\<open>disposing\<close> flag is set: only
  \<^verbatim>\<open>appendToStream\<close> fails with \<^verbatim>\<open>DisposedError\<close> and leaves
  the store untouched. \<^verbatim>\<open>deleteStream\<close>, \<^verbatim>\<open>deleteMessage\<close> and
  \<^verbatim>\<open>setStreamMetadata\<close> never read the flag: each enters the write latch,
  sends its query and succeeds.
\<close>

theorem writes_while_disposing:
  "disposing store_disposing
   \<and> appendToStream config0 (\<lambda>t q. Inr example_insert) ''orders'' (Num ExpectedVersion_Any)
         [example_message] store_disposing =
       (Inl (DisposedError
               ''The stream store has been disposed and is not accepting writes.''),
        store_disposing)
   \<and> fst (deleteStream config0 (\<lambda>t. ''123e4567-e89b-12d3-a456-426614174000'')
            (\<lambda>t q. Inr 0) ''orders'' (Num ExpectedVersion_Any) store_disposing) = Inr ()
   \<and> trace (snd (deleteStream config0 (\<lambda>t. ''123e4567-e89b-12d3-a456-426614174000'')
            (\<lambda>t q. Inr 0) ''orders'' (Num ExpectedVersion_Any) store_disposing)) =
       [LatchEnter, LatchExit,
        Query (Q_deleteStream ''orders'' ''$deleted'' (Num ExpectedVersion_Any) None
                 [(''type'', Str ''$streamDeleted''),
                  (''messageId'', Str ''123e4567-e89b-12d3-a456-426614174000''),
                  (''data'', Obj [(''streamId'', Str ''orders'')])])]
   \<and> deleteMessage (\<lambda>t q. Inr ()) ''orders'' ''123e4567-e89b-12d3-a456-426614174000''
         store_disposing =
       (Inr (),
        store_disposing
          \<lparr>trace := [LatchEnter,
                     Query (Q_deleteMessages ''orders''
                              [''123e4567-e89b-12d3-a456-426614174000'']),
                     LatchExit]\<rparr>)
   \<and> fst (setStreamMetadata config0 (\<lambda>t. ''123e4567-e89b-12d3-a456-426614174000'')
            (\<lambda>t q. Inr 0) ''orders'' (Num ExpectedVersion_Any)
            (Obj [(''maxAge'', Num 60)]) store_disposing) = Inr 0
   \<and> trace (snd (setStreamMetadata config0 (\<lambda>t. ''123e4567-e89b-12d3-a456-426614174000'')
            (\<lambda>t q. Inr 0) ''orders'' (Num ExpectedVersion_Any)
            (Obj [(''maxAge'', Num 60)]) store_disposing)) =
       [LatchEnter,
        Query (Q_setStreamMetadata ''orders'' ''$$orders'' (Num ExpectedVersion_Any)
                 (Num 60) Null None
                 [(''data'', Obj [(''metadata'', Obj []), (''maxAge'', Num 60),
                                  (''maxCount'', Null)]),
                  (''messageId'', Str ''123e4567-e89b-12d3-a456-426614174000''),
                  (''type'', Str ''$streamMetadata'')]),
        LatchExit]"
proof -
  let ?v4 = "\<lambda>t::nat. ''123e4567-e89b-12d3-a456-426614174000''"
  let ?fn = "retryableDeleteStream config0 ?v4 (\<lambda>t q. Inr 0) ''orders''
               (Num ExpectedVersion_Any) Again"
  let ?s1 = "emit LatchExit (emit LatchEnter store_disposing)"
  have a: "appendToStream config0 (\<lambda>t q. Inr example_insert) ''orders''
             (Num ExpectedVersion_Any) [example_message] store_disposing =
           (Inl (DisposedError
                   ''The stream store has been disposed and is not accepting writes.''),
            store_disposing)"
    by (simp add: appendToStream_def example_passes)
  have "fst (?fn ?s1) = Inr ()"
    by (simp add: retryableDeleteStream_def Let_def throwIfErrorCode_def ConcurrencyIssue_def)
  then have "retry_loop retryOpts 0 199 ?fn ?s1 = (Inr (), snd (?fn ?s1))"
    by (rule retry_loop_Inr)
  then have d: "deleteStream config0 ?v4 (\<lambda>t q. Inr 0) ''orders'' (Num ExpectedVersion_Any)
                  store_disposing = (Inr (), snd (?fn ?s1))"
    by (simp add: deleteStream_def requiredString_def notOperationalStream_def required_def
          startsWith_def retry_def retryOpts_def ExpectedVersion_Any_def)
  have t: "trace (snd (?fn ?s1)) =
       [LatchEnter, LatchExit,
        Query (Q_deleteStream ''orders'' ''$deleted'' (Num ExpectedVersion_Any) None
                 [(''type'', Str ''$streamDeleted''),
                  (''messageId'', Str ''123e4567-e89b-12d3-a456-426614174000''),
                  (''data'', Obj [(''streamId'', Str ''orders'')])])]"
    by (simp add: retryableDeleteStream_def Let_def throwIfErrorCode_def ConcurrencyIssue_def
          OperationalStream_Deleted_def OperationalMessageType_StreamDeleted_def
          createStreamDeletedPayload_def currentTime_def config0_def)
  have m: "deleteMessage (\<lambda>t q. Inr ()) ''orders'' ''123e4567-e89b-12d3-a456-426614174000''
         store_disposing =
       (Inr (),
        store_disposing
          \<lparr>trace := [LatchEnter,
                     Query (Q_deleteMessages ''orders''
                              [''123e4567-e89b-12d3-a456-426614174000'']),
                     LatchExit]\<rparr>)"
    by (simp add: deleteMessage_def deleteMessages_def Let_def emit_def store_disposing_def
          store0_def createPostgresStreamStore_def)
  have s: "setStreamMetadata config0 ?v4 (\<lambda>t q. Inr 0) ''orders'' (Num ExpectedVersion_Any)
            (Obj [(''maxAge'', Num 60)]) store_disposing =
          (Inr 0, store_disposing
             \<lparr>trace := [LatchEnter,
        Query (Q_setStreamMetadata ''orders'' ''$$orders'' (Num ExpectedVersion_Any)
                 (Num 60) Null None
                 [(''data'', Obj [(''metadata'', Obj []), (''maxAge'', Num 60),
                                  (''maxCount'', Null)]),
                  (''messageId'', Str ''123e4567-e89b-12d3-a456-426614174000''),
                  (''type'', Str ''$streamMetadata'')]),
        LatchExit]\<rparr>)"
    by (simp add: setStreamMetadata_def requiredString_def required_def Let_def emit_def
          store_disposing_def store0_def createPostgresStreamStore_def toMetadataStreamId_def
          or_null_def get_def throwIfErrorCode_def ConcurrencyIssue_def currentTime_def
          config0_def OperationalMessageType_Metadata_def ExpectedVersion_Any_def)
  show ?thesis
    using a d t m s by simp
qed

subsection \<open>Operations that create nothing\<close>

lemma created_notifiers_append [simp]:
  "created_notifiers (xs @ ys) = created_notifiers xs @ created_notifiers ys"
  by (induction xs rule: created_notifiers.induct) simp_all

lemma created_subscriptions_append [simp]:
  "created_subscriptions (xs @ ys) = created_subscriptions xs @ created_subscriptions ys"
  by (induction xs rule: created_subscriptions.induct) simp_all

lemma quiet_refl [simp]: "quiet s s"
  by (simp add: quiet_def)

lemma quiet_trans: "quiet s s' \<Longrightarrow> quiet s' s'' \<Longrightarrow> quiet s s''"
  by (simp add: quiet_def)

lemma quiet_wait [simp]: "quiet s (wait opts k s)"
  by (simp add: quiet_def)

lemma quiet_emit:
  assumes "created_notifiers [e] = []" and "created_subscriptions [e] = []"
  shows "quiet s (emit e s)"
  using assms by (simp add: quiet_def)

lemma quiet_emit_simps [simp]:
  "quiet s (emit LatchEnter s)" "quiet s (emit LatchExit s)" "quiet s (emit LatchWait s)"
  "quiet s (emit (Query q) s)" "quiet s (emit PoolEnd s)"
  "quiet s (emit (DisposeNotifier n) s)" "quiet s (emit (DisposeSubscription sub) s)"
  by (simp_all add: quiet_emit)

lemma quiet_emit_after:
  assumes "quiet s s'" and "created_notifiers [e] = []" and "created_subscriptions [e] = []"
  shows "quiet s (emit e s')"
  using assms by (simp add: quiet_def)

lemma quiet_attempt:
  "quiet s (snd (retryableAppendToStream config pool sid ev msgs again s))"
  by (simp add: retryableAppendToStream_def insertMessages_def Let_def
        split: sum.splits option.splits)

lemma quiet_delete_attempt:
  "quiet s (snd (retryableDeleteStream config v4 pool sid ev again s))"
  by (simp add: retryableDeleteStream_def Let_def split: sum.splits option.splits)

lemma quiet_retry_loop:
  assumes "\<And>s. quiet s (snd (fn s))"
  shows "quiet s (snd (retry_loop opts k r fn s))"
proof (induction r arbitrary: s k)
  case 0
  show ?case
    using assms [of s] by (auto split: prod.splits sum.splits thrown.splits)
next
  case (Suc r)
  show ?case
  proof (cases "fn s")
    case (Pair res s')
    with assms [of s] have q: "quiet s s'" by simp
    show ?thesis
    proof (cases res)
      case (Inl th)
      show ?thesis
      proof (cases th)
        case (Again e)
        have "quiet s (wait opts (Suc k) s')"
          using q quiet_trans [OF q quiet_wait] by simp
        with Pair Inl Again Suc.IH [of "wait opts (Suc k) s'" "Suc k"] show ?thesis
          by (auto intro: quiet_trans)
      next
        case (Fail e)
        with Pair Inl q show ?thesis by simp
      qed
    next
      case (Inr v)
      with Pair q show ?thesis by simp
    qed
  qed
qed

lemma quiet_appendToStream: "quiet s (snd (appendToStream config pool sid ev msgs s))"
proof -
  let ?fn = "retryableAppendToStream config pool sid ev msgs Again"
  obtain res s' where rl:
    "retry_loop retryOpts 0 (tries retryOpts - 1) ?fn (emit LatchEnter s) = (res, s')"
    by (cases "retry_loop retryOpts 0 (tries retryOpts - 1) ?fn (emit LatchEnter s)")
  have "quiet (emit LatchEnter s)
          (snd (retry_loop retryOpts 0 (tries retryOpts - 1) ?fn (emit LatchEnter s)))"
    by (rule quiet_retry_loop) (rule quiet_attempt)
  with rl have "quiet (emit LatchEnter s) s'" by simp
  then have "quiet s s'"
    using quiet_trans [of s "emit LatchEnter s" s'] by simp
  then have "quiet s (emit LatchExit s')"
    by (simp add: quiet_emit_after)
  then show ?thesis
    using rl
    by (cases "appendToStream_invariants sid ev msgs"; cases res)
       (simp_all add: appendToStream_def retry_def maybeScavenge_def split: prod.splits)
qed

lemma quiet_deleteStream: "quiet s (snd (deleteStream config v4 pool sid ev s))"
proof -
  let ?fn = "retryableDeleteStream config v4 pool sid ev Again"
  let ?s1 = "emit LatchExit (emit LatchEnter s)"
  have "quiet ?s1 (snd (retry_loop retryOpts 0 (tries retryOpts - 1) ?fn ?s1))"
    by (rule quiet_retry_loop) (rule quiet_delete_attempt)
  moreover have "quiet s ?s1"
    by (simp add: quiet_def)
  ultimately have "quiet s (snd (retry_loop retryOpts 0 (tries retryOpts - 1) ?fn ?s1))"
    by (rule quiet_trans [rotated])
  then show ?thesis
    by (cases "first_error
             [requiredString ''streamId'' sid,
              notOperationalStream ''streamId'' sid,
              required ''expectedVersion'' ev]")
       (simp_all add: deleteStream_def retry_def)
qed

lemma quiet_deleteMessage: "quiet s (snd (deleteMessage pool sid mid s))"
  by (simp add: deleteMessage_def deleteMessages_def Let_def quiet_def split: sum.splits)

lemma quiet_setStreamMetadata:
  "quiet s (snd (setStreamMetadata config v4 pool sid ev opts s))"
  by (simp add: setStreamMetadata_def Let_def quiet_def maybeScavenge_def
        split: sum.splits option.splits)

lemma quiet_readHeadPosition: "quiet s (snd (readHeadPosition pool s))"
  by (simp add: readHeadPosition_def Let_def split: sum.splits)

lemma snd_readStream:
  "snd (readStream Position_End pool sid v count direction s) = s
   \<or> (\<exists>q. snd (readStream Position_End pool sid v count direction s) = emit (Query q) s)"
proof (cases "first_error
             [requiredString ''streamId'' sid,
              required ''afterVersion'' (Num v),
              required ''count'' (Num count),
              assert (count > 0) ''count must be greater than zero'']")
  case (Some e)
  then show ?thesis by (simp add: readStream_def)
next
  case None
  let ?q = "Batch (Q_readStreamMessages sid
                     (max 0 (if v = Position_End then MAX_SAFE_INTEGER else v))
                     (count + 1) (direction = Forward))
                  (Q_readStreamInfo sid)"
  have "snd (readStream Position_End pool sid v count direction s) = emit (Query ?q) s"
  proof (cases "pool (length (trace s)) ?q")
    case (Inl e)
    with None show ?thesis by (simp add: readStream_def Let_def)
  next
    case (Inr r)
    obtain ms infos where r: "r = (ms, infos)" by (cases r)
    show ?thesis
      using None Inr r by (cases infos) (simp_all add: readStream_def Let_def)
  qed
  then show ?thesis by blast
qed

lemma quiet_readStream:
  "quiet s (snd (readStream Position_End pool sid v count direction s))"
  using snd_readStream [of Position_End pool sid v count direction s]
  by (auto simp: quiet_def)

lemma snd_readAllInternal:
  "\<exists>q. snd (readAllInternal Position_End pool p count direction s) = emit (Query q) s"
proof -
  let ?fp = "if toString p = toString_int Position_End then PosString MAX_BIG_VALUE else p"
  let ?q = "Q_readAllMessages (count + 1) (toString ?fp) (direction = Forward)"
  have "snd (readAllInternal Position_End pool p count direction s) = emit (Query ?q) s"
  proof (cases "pool (length (trace s)) ?q")
    case (Inl e)
    then show ?thesis by (simp add: readAllInternal_def Let_def)
  next
    case (Inr rows)
    then show ?thesis
      by (simp add: readAllInternal_def Let_def split: option.splits)
  qed
  then show ?thesis by blast
qed

lemma quiet_readAllInternal:
  "quiet s (snd (readAllInternal Position_End pool p count direction s))"
  using snd_readAllInternal [of Position_End pool p count direction s]
  by (auto simp: quiet_def)

lemma quiet_getStreamMetadata: "quiet s (snd (getStreamMetadata Position_End pool sid s))"
proof (cases "requiredString ''streamId'' sid")
  case (Some e)
  then show ?thesis by (simp add: getStreamMetadata_def)
next
  case None
  obtain res s' where rs:
    "readStream Position_End pool (toMetadataStreamId sid) Position_End 1 Backward s =
       (res, s')"
    by (cases "readStream Position_End pool (toMetadataStreamId sid) Position_End 1
                 Backward s")
  have "quiet s (snd (readStream Position_End pool (toMetadataStreamId sid) Position_End 1
                        Backward s))"
    by (rule quiet_readStream)
  with rs have "quiet s s'" by simp
  then show ?thesis
    using None rs
    by (cases res) (simp_all add: getStreamMetadata_def split: list.splits)
qed

lemma quiet_dispose_subscription: "quiet s (dispose_subscription sub s)"
  by (simp add: dispose_subscription_def subscription_disposed_def quiet_def)

lemma quiet_fold_dispose_subscription: "quiet s (fold dispose_subscription subs s)"
proof (induction subs arbitrary: s)
  case Nil
  show ?case by simp
next
  case (Cons sub subs)
  show ?case
    using quiet_trans [OF quiet_dispose_subscription [of s sub]
                          Cons.IH [of "dispose_subscription sub s"]]
    by simp
qed

lemma quiet_dispose: "quiet s (dispose s)"
proof -
  let ?s1 = "s\<lparr>disposing := True\<rparr>"
  let ?s2 = "fold dispose_subscription (subscriptions ?s1) ?s1"
  have "quiet s ?s1" by (simp add: quiet_def)
  moreover have "quiet ?s1 ?s2" by (rule quiet_fold_dispose_subscription)
  ultimately have "quiet s ?s2" by (rule quiet_trans)
  then show ?thesis
    by (auto simp: dispose_def Let_def quiet_def split: option.splits)
qed

subsection \<open>The cached notifier\<close>

lemma getNotifier_cached:
  "notifier s = Some n \<Longrightarrow> getNotifier config s = (n, s)"
  by (simp add: getNotifier_def)

lemma getNotifier_first:
  assumes "notifier s = None"
  shows "\<exists>n. getNotifier config s = (n, (emit (CreateNotifier n) s)\<lparr>notifier := Some n\<rparr>)
             \<and> configured config n"
  using assms
  by (auto simp: getNotifier_def configured_def Let_def
        split: option.splits NotifierConfig.splits)

lemma notifier_inv_quiet:
  "notifier_inv config s \<Longrightarrow> quiet s s' \<Longrightarrow> notifier_inv config s'"
  by (simp add: notifier_inv_def quiet_def)

lemma notifier_inv_subscribeToStream:
  assumes "notifier_inv config s"
  shows "notifier_inv config (snd (subscribeToStream config sid s))"
proof (cases "notifier s")
  case None
  from getNotifier_first [OF None, of config] obtain n where
    n: "getNotifier config s = (n, (emit (CreateNotifier n) s)\<lparr>notifier := Some n\<rparr>)"
       "configured config n"
    by blast
  show ?thesis
    using assms None n
    by (simp add: notifier_inv_def subscribeToStream_def Let_def)
next
  case (Some n)
  show ?thesis
    using assms Some getNotifier_cached [OF Some, of config]
    by (simp add: notifier_inv_def subscribeToStream_def Let_def)
qed

lemma notifier_inv_subscribeToAll:
  assumes "notifier_inv config s"
  shows "notifier_inv config (snd (subscribeToAll config s))"
proof (cases "notifier s")
  case None
  from getNotifier_first [OF None, of config] obtain n where
    n: "getNotifier config s = (n, (emit (CreateNotifier n) s)\<lparr>notifier := Some n\<rparr>)"
       "configured config n"
    by blast
  show ?thesis
    using assms None n
    by (simp add: notifier_inv_def subscribeToAll_def Let_def)
next
  case (Some n)
  show ?thesis
    using assms Some getNotifier_cached [OF Some, of config]
    by (simp add: notifier_inv_def subscribeToAll_def Let_def)
qed

lemma reachable_notifier_inv: "reachable config s \<Longrightarrow> notifier_inv config s"
proof (induction rule: reachable.induct)
  case created
  show ?case
    by (simp add: notifier_inv_def createPostgresStreamStore_def)
next
  case (stream_subscribed s sid)
  then show ?case by (simp add: notifier_inv_subscribeToStream)
next
  case (all_subscribed s)
  then show ?case by (simp add: notifier_inv_subscribeToAll)
qed (blast intro: notifier_inv_quiet quiet_appendToStream quiet_readHeadPosition
       quiet_readAllInternal quiet_readStream quiet_getStreamMetadata
       quiet_setStreamMetadata quiet_deleteStream quiet_deleteMessage
       quiet_dispose_subscription quiet_dispose)+

text \<open>
  What a call of \<^verbatim>\<open>subscribeToStream\<close> or \<^verbatim>\<open>subscribeToAll\<close> does
  in any state: it leaves a notifier cached and hands that notifier to the new
  subscription, which it records and tracks. When a notifier was cached before, it is
  that one and none is created; when none was cached, one is created, as configured.
\<close>

lemma subscribeToStream_call:
  "notifier (snd (subscribeToStream config sid s)) =
     Some (notifier_of (fst (subscribeToStream config sid s)))
   \<and> (\<exists>i. fst (subscribeToStream config sid s) =
            StreamSubscription i sid (notifier_of (fst (subscribeToStream config sid s))))
   \<and> (\<forall>n. notifier s = Some n \<longrightarrow>
          notifier_of (fst (subscribeToStream config sid s)) = n
          \<and> created_notifiers (trace (snd (subscribeToStream config sid s))) =
              created_notifiers (trace s))
   \<and> (notifier s = None \<longrightarrow>
          configured config (notifier_of (fst (subscribeToStream config sid s)))
          \<and> created_notifiers (trace (snd (subscribeToStream config sid s))) =
              created_notifiers (trace s) @
                [notifier_of (fst (subscribeToStream config sid s))])
   \<and> created_subscriptions (trace (snd (subscribeToStream config sid s))) =
       created_subscriptions (trace s) @ [fst (subscribeToStream config sid s)]
   \<and> subscriptions (snd (subscribeToStream config sid s)) =
       subscriptions s @ [fst (subscribeToStream config sid s)]"
proof (cases "notifier s")
  case None
  from getNotifier_first [OF None, of config] obtain n where
    n: "getNotifier config s = (n, (emit (CreateNotifier n) s)\<lparr>notifier := Some n\<rparr>)"
       "configured config n"
    by blast
  show ?thesis
    using None n by (simp add: subscribeToStream_def Let_def)
next
  case (Some n)
  show ?thesis
    using Some getNotifier_cached [OF Some, of config]
    by (simp add: subscribeToStream_def Let_def)
qed

lemma subscribeToAll_call:
  "notifier (snd (subscribeToAll config s)) =
     Some (notifier_of (fst (subscribeToAll config s)))
   \<and> (\<exists>i. fst (subscribeToAll config s) =
            AllSubscription i (notifier_of (fst (subscribeToAll config s))))
   \<and> (\<forall>n. notifier s = Some n \<longrightarrow>
          notifier_of (fst (subscribeToAll config s)) = n
          \<and> created_notifiers (trace (snd (subscribeToAll config s))) =
              created_notifiers (trace s))
   \<and> (notifier s = None \<longrightarrow>
          configured config (notifier_of (fst (subscribeToAll config s)))
          \<and> created_notifiers (trace (snd (subscribeToAll config s))) =
              created_notifiers (trace s) @ [notifier_of (fst (subscribeToAll config s))])
   \<and> created_subscriptions (trace (snd (subscribeToAll config s))) =
       created_subscriptions (trace s) @ [fst (subscribeToAll config s)]
   \<and> subscriptions (snd (subscribeToAll config s)) =
       subscriptions s @ [fst (subscribeToAll config s)]"
proof (cases "notifier s")
  case None
  from getNotifier_first [OF None, of config] obtain n where
    n: "getNotifier config s = (n, (emit (CreateNotifier n) s)\<lparr>notifier := Some n\<rparr>)"
       "configured config n"
    by blast
  show ?thesis
    using None n by (simp add: subscribeToAll_def Let_def)
next
  case (Some n)
  show ?thesis
    using Some getNotifier_cached [OF Some, of config]
    by (simp add: subscribeToAll_def Let_def)
qed

text \<open>
  Claim C10. In every state of a store at most one notifier has been created: the
  notifiers created so far are exactly the cached one, if there is one. It exists as
  soon as a subscription has been created, it is the polling notifier at the
  configured interval (500 ms when none or zero is configured) or the pg-notify
  notifier when that is configured, and every subscription ever created holds this
  very notifier. A call of \<^verbatim>\<open>subscribeToStream\<close> or
  \<^verbatim>\<open>subscribeToAll\<close> in such a state returns a subscription that holds the
  notifier cached after the call, and tracks and records it. When no notifier was
  cached, the call constructs one, as configured, and it is then the only notifier
  ever created; when one was cached, the subscription receives that very notifier and
  the call constructs none.
\<close>

theorem one_notifier:
  assumes "reachable config s"
  shows "length (created_notifiers (trace s)) \<le> 1
         \<and> created_notifiers (trace s) = (case notifier s of None \<Rightarrow> [] | Some n \<Rightarrow> [n])
         \<and> (\<forall>sub \<in> set (created_subscriptions (trace s)).
               notifier s = Some (notifier_of sub)
               \<and> created_notifiers (trace s) = [notifier_of sub])
         \<and> (notifier s = None \<longleftrightarrow> created_subscriptions (trace s) = [])
         \<and> (\<forall>n \<in> set (created_notifiers (trace s)). configured config n)
         \<and> (\<forall>sid.
               notifier (snd (subscribeToStream config sid s)) =
                 Some (notifier_of (fst (subscribeToStream config sid s)))
               \<and> (\<exists>i. fst (subscribeToStream config sid s) =
                        StreamSubscription i sid
                          (notifier_of (fst (subscribeToStream config sid s))))
               \<and> (\<forall>n. notifier s = Some n \<longrightarrow>
                      notifier_of (fst (subscribeToStream config sid s)) = n
                      \<and> created_notifiers (trace (snd (subscribeToStream config sid s))) =
                          created_notifiers (trace s))
               \<and> (notifier s = None \<longrightarrow>
                      configured config (notifier_of (fst (subscribeToStream config sid s)))
                      \<and> created_notifiers (trace (snd (subscribeToStream config sid s))) =
                          [notifier_of (fst (subscribeToStream config sid s))])
               \<and> created_subscriptions (trace (snd (subscribeToStream config sid s))) =
                   created_subscriptions (trace s) @ [fst (subscribeToStream config sid s)]
               \<and> subscriptions (snd (subscribeToStream config sid s)) =
                   subscriptions s @ [fst (subscribeToStream config sid s)])
         \<and> (notifier (snd (subscribeToAll config s)) =
               Some (notifier_of (fst (subscribeToAll config s)))
             \<and> (\<exists>i. fst (subscribeToAll config s) =
                      AllSubscription i (notifier_of (fst (subscribeToAll config s))))
             \<and> (\<forall>n. notifier s = Some n \<longrightarrow>
                    notifier_of (fst (subscribeToAll config s)) = n
                    \<and> created_notifiers (trace (snd (subscribeToAll config s))) =
                        created_notifiers (trace s))
             \<and> (notifier s = None \<longrightarrow>
                    configured config (notifier_of (fst (subscribeToAll config s)))
                    \<and> created_notifiers (trace (snd (subscribeToAll config s))) =
                        [notifier_of (fst (subscribeToAll config s))])
             \<and> created_subscriptions (trace (snd (subscribeToAll config s))) =
                 created_subscriptions (trace s) @ [fst (subscribeToAll config s)]
             \<and> subscriptions (snd (subscribeToAll config s)) =
                 subscriptions s @ [fst (subscribeToAll config s)])"
    (is "?A \<and> ?B \<and> ?C \<and> ?D \<and> ?E \<and> ?F \<and> ?G")
proof -
  have inv: "notifier_inv config s"
    using assms by (rule reachable_notifier_inv)
  have none: "created_notifiers (trace s) = []" if "notifier s = None"
    using inv that by (simp add: notifier_inv_def)
  have old: "?A \<and> ?B \<and> ?C \<and> ?D \<and> ?E"
    using inv by (auto simp: notifier_inv_def split: option.splits)
  have F: ?F
  proof
    fix sid
    show "notifier (snd (subscribeToStream config sid s)) =
                 Some (notifier_of (fst (subscribeToStream config sid s)))
               \<and> (\<exists>i. fst (subscribeToStream config sid s) =
                        StreamSubscription i sid
                          (notifier_of (fst (subscribeToStream config sid s))))
               \<and> (\<forall>n. notifier s = Some n \<longrightarrow>
                      notifier_of (fst (subscribeToStream config sid s)) = n
                      \<and> created_notifiers (trace (snd (subscribeToStream config sid s))) =
                          created_notifiers (trace s))
               \<and> (notifier s = None \<longrightarrow>
                      configured config (notifier_of (fst (subscribeToStream config sid s)))
                      \<and> created_notifiers (trace (snd (subscribeToStream config sid s))) =
                          [notifier_of (fst (subscribeToStream config sid s))])
               \<and> created_subscriptions (trace (snd (subscribeToStream config sid s))) =
                   created_subscriptions (trace s) @ [fst (subscribeToStream config sid s)]
               \<and> subscriptions (snd (subscribeToStream config sid s)) =
                   subscriptions s @ [fst (subscribeToStream config sid s)]"
      using subscribeToStream_call [of config sid s] none by simp
  qed
  have G: ?G
    using subscribeToAll_call [of config s] none by simp
  from old have A: ?A and B: ?B and C: ?C and D: ?D and E: ?E
    by blast+
  from A B C D E F G show ?thesis
    by (elim conjE) (intro conjI; assumption)
qed

theorem one_notifier_witness:
  "created_notifiers
     (trace (snd (subscribeToAll config0 (snd (subscribeToStream config0 ''orders'' store0)))))
     = [PollingNotifier 0 500]
   \<and> notifier_of (fst (subscribeToStream config0 ''orders'' store0)) = PollingNotifier 0 500
   \<and> notifier_of (fst (subscribeToAll config0
                          (snd (subscribeToStream config0 ''orders'' store0))))
       = PollingNotifier 0 500
   \<and> configured config0 (PollingNotifier 0 500)
   \<and> subscribeToStream config0 ''orders'' store0 =
       (StreamSubscription 1 ''orders'' (PollingNotifier 0 500),
        store0\<lparr>subscriptions := [StreamSubscription 1 ''orders'' (PollingNotifier 0 500)],
               notifier := Some (PollingNotifier 0 500),
               trace := [CreateNotifier (PollingNotifier 0 500),
                         CreateSubscription
                           (StreamSubscription 1 ''orders'' (PollingNotifier 0 500))]\<rparr>)
   \<and> fst (subscribeToAll config0 (snd (subscribeToStream config0 ''orders'' store0))) =
       AllSubscription 2 (PollingNotifier 0 500)
   \<and> notifier (snd (subscribeToAll config0
                       (snd (subscribeToStream config0 ''orders'' store0)))) =
       Some (PollingNotifier 0 500)"
proof -
  have "reachable config0
          (snd (subscribeToAll config0 (snd (subscribeToStream config0 ''orders'' store0))))"
    unfolding store0_def by (intro reachable.intros)
  from one_notifier [OF this] show ?thesis
    by (simp add: subscribeToAll_def subscribeToStream_def getNotifier_def Let_def
          config0_def or_default_def store0_def createPostgresStreamStore_def emit_def
          configured_def)
qed

end
